theory Spec2Isabelle
  imports Main "HOL-Library.AList" "HOL-Library.Sublist" "HOL-Library.List_Lexorder"
    "HOL-Library.Char_ord"
begin

section \<open>Data model\<close>

text \<open>
  The development embeds \<^verbatim>\<open>findIssues\<close> of knip 0.7.3 (the second module of
  \<^verbatim>\<open>src/src/cli.ts\<close>). The function walks ts-morph source files; what it reads from
  them is kept as data (a file's path and exported declarations, a node's kind, text and
  children) or as a capability passed in (reference lookup, type of a declaration,
  dependency analysis, \<^verbatim>\<open>path.relative\<close>).

  JavaScript objects used as dictionaries are association lists in insertion order
  (own properties only: keys inherited from \<^verbatim>\<open>Object.prototype\<close> are outside the
  model), a JavaScript \<^verbatim>\<open>Set\<close> is a duplicate-free list in insertion order, numbers
  that count are natural numbers, and an exception is the left summand of a sum.
\<close>

datatype syntaxKind =
    Identifier
  | ArrowFunction
  | FunctionDeclaration
  | ClassDeclaration
  | TypeAliasDeclaration
  | InterfaceDeclaration
  | EnumDeclaration
  | PropertyAccessExpression
  | VariableDeclaration
  | OtherKind

text \<open>A syntax node: its kind, the path of the source file it stands in, its position
  there, its text and its children in source order. Two nodes are the same object when
  they agree in all of these.\<close>

datatype node =
  Node (kind: syntaxKind) (nodeFile: string) (pos: nat) (getText: string)
    (getChildren: "node list")

record sourceFile =
  getFilePath :: string
  getExportedDeclarations :: "(string \<times> node list) list"

record issue =
  filePath :: string
  symbol :: string
  symbols :: "string list option"
  symbolType :: "string option"

datatype symbolIssueType = Unresolved | Exports | Types | NsExports | NsTypes | Duplicates

datatype projectIssueType = Files | Dependencies | DevDependencies

type_synonym symbolStore = "(string \<times> (string \<times> issue) list) list"

record report =
  files :: bool
  dependencies :: bool
  unlisted :: bool
  exports :: bool
  types :: bool
  nsExports :: bool
  nsTypes :: bool
  duplicates :: bool

record jsDocOptions =
  isReadPublicTag :: bool

record configuration =
  workingDir :: string
  isShowProgress :: bool
  report :: report
  isDev :: bool
  jsDocOptions :: jsDocOptions
  entryFiles :: "sourceFile list"
  productionFiles :: "sourceFile list"
  projectFiles :: "sourceFile list"

text \<open>The first argument of \<^verbatim>\<open>getLine\<close> is a number or a string.\<close>

datatype lineValue = Num nat | Str string

text \<open>
  What \<^verbatim>\<open>findIssues\<close> calls from outside its module, taken as parameters: Node's
  \<^verbatim>\<open>path.relative\<close>, the dependency analyzer, the helpers of ts-morph-helpers,
  \<^verbatim>\<open>getType\<close>, the public-tag lookup, \<^verbatim>\<open>findReferences\<close> (a list of referenced symbols,
  each with the file names of its reference entries), \<^verbatim>\<open>getLine\<close>, and the text of
  \<^verbatim>\<open>Math.floor((counter / total) * 100)\<close>, a floating-point computation.
\<close>

record capabilities =
  relative :: "string \<Rightarrow> string \<Rightarrow> string"
  getUnresolvedDependencies :: "sourceFile \<Rightarrow> issue list"
  getUnusedDependencies :: "string list"
  getUnusedDevDependencies :: "string list"
  findDuplicateExportedNames :: "sourceFile \<Rightarrow> string list list"
  findReferencingNamespaceNodes :: "sourceFile \<Rightarrow> node list"
  getType :: "node \<Rightarrow> string option"
  getJSDocPublicTag :: "node \<Rightarrow> bool"
  findReferences :: "node \<Rightarrow> string list list"
  getLine :: "lineValue \<Rightarrow> string \<Rightarrow> string"
  floorPercentage :: "nat \<Rightarrow> nat \<Rightarrow> string"

text \<open>The calls received by the module's \<^verbatim>\<open>lineRewriter\<close>.\<close>

datatype rewriterCall = Update "string list" | ResetLines

text \<open>
  The mutable variables of one run: \<^verbatim>\<open>issues\<close> (the three sets and the six stores),
  \<^verbatim>\<open>counters\<close>, and the calls made to the line rewriter.
\<close>

record state =
  projectIssues :: "projectIssueType \<Rightarrow> string list"
  symbolIssues :: "symbolIssueType \<Rightarrow> symbolStore"
  projectCounters :: "projectIssueType \<Rightarrow> nat"
  symbolCounters :: "symbolIssueType \<Rightarrow> nat"
  processed :: nat
  lineRewriter :: "rewriterCall list"

datatype error = NoChildOfKind syntaxKind

section \<open>JavaScript helpers\<close>

text \<open>\<^verbatim>\<open>Set.prototype.add\<close> and \<^verbatim>\<open>new Set(xs)\<close>.\<close>

definition setAdd :: "'a \<Rightarrow> 'a list \<Rightarrow> 'a list" where
  "setAdd x xs = (if x \<in> set xs then xs else xs @ [x])"

definition newSet :: "'a list \<Rightarrow> 'a list" where
  "newSet xs = fold setAdd xs []"

text \<open>\<^verbatim>\<open>Array.prototype.join\<close>.\<close>

fun join :: "string \<Rightarrow> string list \<Rightarrow> string" where
  "join sep [] = []"
| "join sep [x] = x"
| "join sep (x # y # ys) = x @ sep @ join sep (y # ys)"

text \<open>A natural number in a template literal.\<close>

definition digitChar :: "nat \<Rightarrow> char" where
  "digitChar d = char_of (48 + d)"

fun showNat :: "nat \<Rightarrow> string" where
  "showNat n = (if n < 10 then [digitChar n] else showNat (n div 10) @ [digitChar (n mod 10)])"

declare showNat.simps [simp del]

text \<open>Truthiness of a value that is a string or \<^verbatim>\<open>undefined\<close>.\<close>

definition truthy :: "string option \<Rightarrow> bool" where
  "truthy v = (case v of None \<Rightarrow> False | Some str \<Rightarrow> str \<noteq> [])"

text \<open>\<^verbatim>\<open>callback\<close> applied to each element in turn; an exception ends the loop.\<close>

fun forEach :: "('a \<Rightarrow> 's \<Rightarrow> error + 's) \<Rightarrow> 'a list \<Rightarrow> 's \<Rightarrow> error + 's" where
  "forEach f [] s = Inr s"
| "forEach f (x # xs) s = (case f x s of Inl e \<Rightarrow> Inl e | Inr s' \<Rightarrow> forEach f xs s')"

text \<open>\<^verbatim>\<open>store[key]?.[name]\<close> as a condition.\<close>

definition hasIssue :: "symbolStore \<Rightarrow> string \<Rightarrow> string \<Rightarrow> bool" where
  "hasIssue store key name =
     (case map_of store key of
        None \<Rightarrow> False
      | Some forKey \<Rightarrow> (case map_of forKey name of None \<Rightarrow> False | Some i \<Rightarrow> True))"

section \<open>ts-morph node navigation\<close>

definition getFirstChildByKind :: "syntaxKind \<Rightarrow> node \<Rightarrow> node option" where
  "getFirstChildByKind k n = find (\<lambda>c. kind c = k) (getChildren n)"

definition getLastChildByKind :: "syntaxKind \<Rightarrow> node \<Rightarrow> node option" where
  "getLastChildByKind k n = find (\<lambda>c. kind c = k) (rev (getChildren n))"

fun descendants :: "node \<Rightarrow> node list" where
  "descendants (Node k f p t cs) = concat (map (\<lambda>c. c # descendants c) cs)"

definition getFirstDescendantByKind :: "syntaxKind \<Rightarrow> node \<Rightarrow> node option" where
  "getFirstDescendantByKind k n = find (\<lambda>c. kind c = k) (descendants n)"

definition orThrow :: "syntaxKind \<Rightarrow> node option \<Rightarrow> error + node option" where
  "orThrow k found = (case found of None \<Rightarrow> Inl (NoChildOfKind k) | Some c \<Rightarrow> Inr (Some c))"

section \<open>The issue aggregator and the progress reporter\<close>

text \<open>
  \<^verbatim>\<open>updateProcessingOutput\<close> (lines 130 to 148). It reads the counters, the number of
  project files and the number of unreferenced production files, and passes the lines to
  the line rewriter; with progress display off it returns at once.
\<close>

definition progressMessages ::
  "capabilities \<Rightarrow> configuration \<Rightarrow> sourceFile list \<Rightarrow> issue \<Rightarrow> state \<Rightarrow> string list" where
  "progressMessages cap cfg unreferencedProductionFiles item s =
     (let counter = processed s;
          total = length (projectFiles cfg);
          rep = report cfg
      in [getLine cap (Str (floorPercentage cap counter total @ ''%''))
            (''of files processed ('' @ showNat counter @ '' of '' @ showNat total @ '')'')]
         @ (if files rep
            then [getLine cap (Num (length unreferencedProductionFiles)) ''unused files''] else [])
         @ (if unlisted rep
            then [getLine cap (Num (symbolCounters s Unresolved)) ''unlisted dependencies''] else [])
         @ (if exports rep
            then [getLine cap (Num (symbolCounters s Exports)) ''unused exports''] else [])
         @ (if nsExports rep
            then [getLine cap (Num (symbolCounters s NsExports)) ''unused exports in namespace'']
            else [])
         @ (if types rep
            then [getLine cap (Num (symbolCounters s Types)) ''unused types''] else [])
         @ (if nsTypes rep
            then [getLine cap (Num (symbolCounters s NsTypes)) ''unused types in namespace'']
            else [])
         @ (if duplicates rep
            then [getLine cap (Num (symbolCounters s Duplicates)) ''duplicate exports''] else [])
         @ (if counter < total
            then [[], ''Processing: '' @ relative cap (workingDir cfg) (filePath item)]
            else []))"

definition updateProcessingOutput ::
  "capabilities \<Rightarrow> configuration \<Rightarrow> sourceFile list \<Rightarrow> issue \<Rightarrow> state \<Rightarrow> state" where
  "updateProcessingOutput cap cfg unreferencedProductionFiles item s =
     (if \<not> isShowProgress cfg then s
      else s\<lparr>lineRewriter := lineRewriter s
                 @ [Update (progressMessages cap cfg unreferencedProductionFiles item s)]\<rparr>)"

text \<open>\<^verbatim>\<open>addSymbolIssue\<close> (lines 150 to 157).\<close>

definition addSymbolIssue ::
  "capabilities \<Rightarrow> configuration \<Rightarrow> sourceFile list \<Rightarrow> symbolIssueType \<Rightarrow> issue \<Rightarrow> state
     \<Rightarrow> state" where
  "addSymbolIssue cap cfg unreferencedProductionFiles issueType item s =
     (let key = relative cap (workingDir cfg) (filePath item);
          store = symbolIssues s issueType;
          forKey = (case map_of store key of None \<Rightarrow> [] | Some m \<Rightarrow> m);
          store' = AList.update key (AList.update (symbol item) item forKey) store
      in updateProcessingOutput cap cfg unreferencedProductionFiles item
           (s\<lparr>symbolIssues := (symbolIssues s)(issueType := store'),
              symbolCounters := (symbolCounters s)(issueType := symbolCounters s issueType + 1)\<rparr>))"

text \<open>\<^verbatim>\<open>addProjectIssue\<close> (lines 159 to 165).\<close>

definition addProjectIssue ::
  "capabilities \<Rightarrow> configuration \<Rightarrow> sourceFile list \<Rightarrow> projectIssueType \<Rightarrow> issue \<Rightarrow> state
     \<Rightarrow> state" where
  "addProjectIssue cap cfg unreferencedProductionFiles issueType item s =
     updateProcessingOutput cap cfg unreferencedProductionFiles item
       (if symbol item \<notin> set (projectIssues s issueType)
        then s\<lparr>projectIssues :=
                 (projectIssues s)(issueType := setAdd (symbol item) (projectIssues s issueType)),
               projectCounters :=
                 (projectCounters s)(issueType := projectCounters s issueType + 1)\<rparr>
        else s)"

text \<open>The results as set up in lines 104 to 127.\<close>

definition initialState :: "sourceFile list \<Rightarrow> state" where
  "initialState unreferencedProductionFiles =
     (let issuesFiles = newSet (map getFilePath unreferencedProductionFiles);
          sets = (\<lambda>t. case t of Files \<Rightarrow> issuesFiles | Dependencies \<Rightarrow> [] | DevDependencies \<Rightarrow> [])
      in \<lparr>projectIssues = sets,
          symbolIssues = (\<lambda>t. []),
          projectCounters =
            (\<lambda>t. case t of
                   Files \<Rightarrow> length (sets Files)
                 | Dependencies \<Rightarrow> length (sets Dependencies)
                 | DevDependencies \<Rightarrow> length (sets Dependencies)),
          symbolCounters = (\<lambda>t. 0),
          processed = length (sets Files),
          lineRewriter = []\<rparr>)"

section \<open>The export usage classifier\<close>

text \<open>Lines 223 to 241: the identifier of an exported declaration, if it has one.\<close>

definition declarationIdentifier :: "node \<Rightarrow> error + node option" where
  "declarationIdentifier decl =
     (if kind decl = Identifier then Inr (Some decl)
      else if kind decl = ArrowFunction then Inr None
      else if kind decl = FunctionDeclaration \<or> kind decl = ClassDeclaration
              \<or> kind decl = TypeAliasDeclaration \<or> kind decl = InterfaceDeclaration
              \<or> kind decl = EnumDeclaration
        then orThrow Identifier (getFirstChildByKind Identifier decl)
      else if kind decl = PropertyAccessExpression
        then orThrow Identifier (getLastChildByKind Identifier decl)
      else Inr (getFirstDescendantByKind Identifier decl))"

text \<open>Lines 216 to 219: the declaration is not of a reported kind.\<close>

definition notReported :: "report \<Rightarrow> string option \<Rightarrow> bool" where
  "notReported rep type =
     (if \<not> nsExports rep \<and> \<not> nsTypes rep
      then (if \<not> types rep \<and> truthy type then True
            else if \<not> exports rep \<and> \<not> truthy type then True
            else False)
      else False)"

text \<open>Lines 246 to 249: the identifier is already in a store that is reported.\<close>

definition alreadyRecorded :: "report \<Rightarrow> state \<Rightarrow> string \<Rightarrow> string \<Rightarrow> bool" where
  "alreadyRecorded rep s path identifierText =
     (if exports rep \<and> hasIssue (symbolIssues s Exports) path identifierText then True
      else if types rep \<and> hasIssue (symbolIssues s Types) path identifierText then True
      else if nsExports rep \<and> hasIssue (symbolIssues s NsExports) path identifierText then True
      else if nsTypes rep \<and> hasIssue (symbolIssues s NsTypes) path identifierText then True
      else False)"

text \<open>Lines 256 to 258.\<close>

definition isReferencedOnlyBySelf :: "string list list \<Rightarrow> string \<Rightarrow> bool" where
  "isReferencedOnlyBySelf refs path =
     (let refFiles = newSet (concat refs)
      in length refFiles = 1 \<and> refFiles ! 0 = path)"

text \<open>Lines 243 to 276, for an identifier that was found.\<close>

definition classifyIdentifier ::
  "capabilities \<Rightarrow> configuration \<Rightarrow> sourceFile list \<Rightarrow> sourceFile \<Rightarrow> string option \<Rightarrow> node
     \<Rightarrow> state \<Rightarrow> state" where
  "classifyIdentifier cap cfg unref sourceFile type identifier s =
     (let path = getFilePath sourceFile;
          identifierText = getText identifier
      in if alreadyRecorded (report cfg) s path identifierText then s
         else
           let refs = findReferences cap identifier
           in if length refs = 0
              then addSymbolIssue cap cfg unref Exports
                     \<lparr>filePath = path, symbol = identifierText, symbols = None, symbolType = None\<rparr> s
              else if \<not> isReferencedOnlyBySelf refs path then s
              else if length (findReferencingNamespaceNodes cap sourceFile) > 0
              then (if truthy type
                    then addSymbolIssue cap cfg unref NsTypes
                           \<lparr>filePath = path, symbol = identifierText, symbols = None,
                            symbolType = type\<rparr> s
                    else addSymbolIssue cap cfg unref NsExports
                           \<lparr>filePath = path, symbol = identifierText, symbols = None,
                            symbolType = None\<rparr> s)
              else if truthy type
              then addSymbolIssue cap cfg unref Types
                     \<lparr>filePath = path, symbol = identifierText, symbols = None, symbolType = type\<rparr> s
              else addSymbolIssue cap cfg unref Exports
                     \<lparr>filePath = path, symbol = identifierText, symbols = None, symbolType = None\<rparr> s)"

text \<open>Lines 213 to 277: the callback run on each exported declaration.\<close>

definition processDeclaration ::
  "capabilities \<Rightarrow> configuration \<Rightarrow> sourceFile list \<Rightarrow> sourceFile \<Rightarrow> node \<Rightarrow> state
     \<Rightarrow> error + state" where
  "processDeclaration cap cfg unref sourceFile decl s =
     (let type = getType cap decl
      in if notReported (report cfg) type then Inr s
         else if isReadPublicTag (jsDocOptions cfg) \<and> getJSDocPublicTag cap decl then Inr s
         else (case declarationIdentifier decl of
                 Inl e \<Rightarrow> Inl e
               | Inr None \<Rightarrow> Inr s
               | Inr (Some identifier) \<Rightarrow>
                   Inr (classifyIdentifier cap cfg unref sourceFile type identifier s)))"

section \<open>The traversal\<close>

text \<open>Lines 172 and 173, and again 193 and 194.\<close>

definition collectUnresolved ::
  "capabilities \<Rightarrow> configuration \<Rightarrow> sourceFile list \<Rightarrow> sourceFile \<Rightarrow> state \<Rightarrow> state" where
  "collectUnresolved cap cfg unref sourceFile s =
     fold (addSymbolIssue cap cfg unref Unresolved) (getUnresolvedDependencies cap sourceFile) s"

text \<open>Lines 170 to 174: the callback run on each used entry file.\<close>

definition processEntryFile ::
  "capabilities \<Rightarrow> configuration \<Rightarrow> sourceFile list \<Rightarrow> sourceFile \<Rightarrow> state \<Rightarrow> state" where
  "processEntryFile cap cfg unref sourceFile s =
     collectUnresolved cap cfg unref sourceFile (s\<lparr>processed := processed s + 1\<rparr>)"

text \<open>Lines 200 to 206.\<close>

definition collectDuplicates ::
  "capabilities \<Rightarrow> configuration \<Rightarrow> sourceFile list \<Rightarrow> sourceFile \<Rightarrow> state \<Rightarrow> state" where
  "collectDuplicates cap cfg unref sourceFile s =
     fold (\<lambda>names. addSymbolIssue cap cfg unref Duplicates
                     \<lparr>filePath = getFilePath sourceFile, symbol = join ''|'' names,
                      symbols = Some names, symbolType = None\<rparr>)
          (findDuplicateExportedNames cap sourceFile) s"

text \<open>Lines 208 to 279.\<close>

definition classifyExports ::
  "capabilities \<Rightarrow> configuration \<Rightarrow> sourceFile list \<Rightarrow> sourceFile \<Rightarrow> state \<Rightarrow> error + state" where
  "classifyExports cap cfg unref sourceFile s =
     (let exportDeclarations = getExportedDeclarations sourceFile;
          uniqueExportedSymbols = newSet (concat (map snd exportDeclarations))
      in if length uniqueExportedSymbols = 1 then Inr s
         else forEach (\<lambda>declarations. forEach (processDeclaration cap cfg unref sourceFile) declarations)
                (map snd exportDeclarations) s)"

text \<open>Lines 188 to 280: the callback run on each used non-entry file.\<close>

definition processSourceFile ::
  "capabilities \<Rightarrow> configuration \<Rightarrow> sourceFile list \<Rightarrow> sourceFile \<Rightarrow> state \<Rightarrow> error + state" where
  "processSourceFile cap cfg unref sourceFile s =
     (let rep = report cfg;
          s1 = s\<lparr>processed := processed s + 1\<rparr>;
          s2 = (if dependencies rep \<or> unlisted rep
                then collectUnresolved cap cfg unref sourceFile s1 else s1);
          s3 = (if duplicates rep then collectDuplicates cap cfg unref sourceFile s2 else s2)
      in if exports rep \<or> types rep \<or> nsExports rep \<or> nsTypes rep
         then classifyExports cap cfg unref sourceFile s3
         else Inr s3)"

text \<open>Lines 167 to 175.\<close>

definition entryPass ::
  "capabilities \<Rightarrow> configuration \<Rightarrow> sourceFile list \<Rightarrow> sourceFile list \<Rightarrow> state \<Rightarrow> state" where
  "entryPass cap cfg unref usedEntryFiles s =
     (if dependencies (report cfg) \<or> unlisted (report cfg)
      then fold (processEntryFile cap cfg unref) usedEntryFiles s
      else s)"

text \<open>Lines 177 to 281.\<close>

definition mainTraversal ::
  "capabilities \<Rightarrow> configuration \<Rightarrow> sourceFile list \<Rightarrow> sourceFile list \<Rightarrow> state
     \<Rightarrow> error + state" where
  "mainTraversal cap cfg unref usedNonEntryFiles s =
     (let rep = report cfg
      in if dependencies rep \<or> unlisted rep \<or> exports rep \<or> types rep \<or> nsExports rep
            \<or> nsTypes rep \<or> duplicates rep
         then forEach (processSourceFile cap cfg unref) usedNonEntryFiles s
         else Inr s)"

text \<open>Lines 283 to 290.\<close>

definition projectPass ::
  "capabilities \<Rightarrow> configuration \<Rightarrow> sourceFile list \<Rightarrow> state \<Rightarrow> state" where
  "projectPass cap cfg unref s =
     (if dependencies (report cfg)
      then (let s1 = fold (\<lambda>name. addProjectIssue cap cfg unref Dependencies
                                     \<lparr>filePath = [], symbol = name, symbols = None,
                                      symbolType = None\<rparr>)
                          (getUnusedDependencies cap) s
            in if isDev cfg
               then fold (\<lambda>name. addProjectIssue cap cfg unref DevDependencies
                                    \<lparr>filePath = [], symbol = name, symbols = None,
                                     symbolType = None\<rparr>)
                         (getUnusedDevDependencies cap) s1
               else s1)
      else s)"

text \<open>Line 292.\<close>

definition resetLines :: "configuration \<Rightarrow> state \<Rightarrow> state" where
  "resetLines cfg s =
     (if isShowProgress cfg then s\<lparr>lineRewriter := lineRewriter s @ [ResetLines]\<rparr> else s)"

text \<open>Lines 103 to 294: the run once the files are partitioned.\<close>

definition collectIssues ::
  "capabilities \<Rightarrow> configuration \<Rightarrow> sourceFile list \<Rightarrow> sourceFile list \<Rightarrow> sourceFile list
     \<Rightarrow> error + state" where
  "collectIssues cap cfg unreferencedProductionFiles usedEntryFiles usedNonEntryFiles =
     (case mainTraversal cap cfg unreferencedProductionFiles usedNonEntryFiles
             (entryPass cap cfg unreferencedProductionFiles usedEntryFiles
                (initialState unreferencedProductionFiles)) of
        Inl e \<Rightarrow> Inl e
      | Inr s \<Rightarrow> Inr (resetLines cfg (projectPass cap cfg unreferencedProductionFiles s)))"

section \<open>The file partitioner and the whole run\<close>

text \<open>
  Modelled from the spec: \<^verbatim>\<open>partitionSourceFiles\<close> is imported from
  \<^verbatim>\<open>./util/project\<close>, which is not among the sources. The model is the function that
  the spec's account of its two uses (4.1) and the two calls of lines 95 and 96 agree
  on: the call of line 96 is given the used production files and the entry files and must
  split the used production files into entry and non-entry files, the second part being
  the non-entry production files that the comment of line 187 says are traversed. So
  the function splits its first argument by membership in its second: the elements of
  the first list that are in the second, and those that are not, each in the order of the
  first list. A file is identified by its unique path (spec, section 3).
\<close>

definition partitionSourceFiles ::
  "sourceFile list \<Rightarrow> sourceFile list \<Rightarrow> sourceFile list \<times> sourceFile list" where
  "partitionSourceFiles sourceFiles others =
     (filter (\<lambda>f. getFilePath f \<in> getFilePath ` set others) sourceFiles,
      filter (\<lambda>f. getFilePath f \<notin> getFilePath ` set others) sourceFiles)"

text \<open>Lines 95 and 96.\<close>

definition usedProductionFiles :: "configuration \<Rightarrow> sourceFile list" where
  "usedProductionFiles cfg = fst (partitionSourceFiles (projectFiles cfg) (productionFiles cfg))"

definition unreferencedProductionFiles :: "configuration \<Rightarrow> sourceFile list" where
  "unreferencedProductionFiles cfg =
     snd (partitionSourceFiles (projectFiles cfg) (productionFiles cfg))"

definition usedEntryFiles :: "configuration \<Rightarrow> sourceFile list" where
  "usedEntryFiles cfg = fst (partitionSourceFiles (usedProductionFiles cfg) (entryFiles cfg))"

definition usedNonEntryFiles :: "configuration \<Rightarrow> sourceFile list" where
  "usedNonEntryFiles cfg = snd (partitionSourceFiles (usedProductionFiles cfg) (entryFiles cfg))"

text \<open>
  \<^verbatim>\<open>findIssues\<close> (lines 87 to 295). The result holds the returned \<^verbatim>\<open>issues\<close> and
  \<^verbatim>\<open>counters\<close> and the calls the run made to the line rewriter; an exception thrown
  by \<^verbatim>\<open>getFirstChildByKindOrThrow\<close> or \<^verbatim>\<open>getLastChildByKindOrThrow\<close> ends the run.
\<close>

definition findIssues :: "capabilities \<Rightarrow> configuration \<Rightarrow> error + state" where
  "findIssues cap cfg =
     collectIssues cap cfg (unreferencedProductionFiles cfg) (usedEntryFiles cfg)
       (usedNonEntryFiles cfg)"

text \<open>The value \<^verbatim>\<open>{ issues, counters }\<close> that \<^verbatim>\<open>findIssues\<close> returns.\<close>

definition returned ::
  "state \<Rightarrow> ((projectIssueType \<Rightarrow> string list) \<times> (symbolIssueType \<Rightarrow> symbolStore))
     \<times> ((projectIssueType \<Rightarrow> nat) \<times> (symbolIssueType \<Rightarrow> nat) \<times> nat)" where
  "returned s =
     ((projectIssues s, symbolIssues s), (projectCounters s, symbolCounters s, processed s))"

text \<open>Reading a store: the issue at \<^verbatim>\<open>store[key][name]\<close>, and the number of its
  (file, symbol) entries.\<close>

definition getIssue :: "symbolStore \<Rightarrow> string \<Rightarrow> string \<Rightarrow> issue option" where
  "getIssue store key name =
     (case map_of store key of None \<Rightarrow> None | Some forKey \<Rightarrow> map_of forKey name)"

definition storeSize :: "symbolStore \<Rightarrow> nat" where
  "storeSize store = sum_list (map (\<lambda>entry. length (snd entry)) store)"



text \<open>
  The spec's single pass (4.2), to compare with the two phases of the code:
  \<^verbatim>\<open>unresolvedDependencies\<close> run once over a list of files, each result fed to the
  aggregator as an \<^verbatim>\<open>unresolved\<close> issue; nothing when neither dependencies nor
  unlisted dependencies are reported.
\<close>

definition unresolvedSinglePass ::
  "capabilities \<Rightarrow> configuration \<Rightarrow> sourceFile list \<Rightarrow> sourceFile list \<Rightarrow> state \<Rightarrow> state" where
  "unresolvedSinglePass cap cfg unref sourceFiles s =
     (if dependencies (report cfg) \<or> unlisted (report cfg)
      then fold (\<lambda>sourceFile. fold (addSymbolIssue cap cfg unref Unresolved)
                                 (getUnresolvedDependencies cap sourceFile))
             sourceFiles s
      else s)"

section \<open>A sample project\<close>

text \<open>
  Node's \<^verbatim>\<open>path.relative\<close> on POSIX, for absolute paths without \<^verbatim>\<open>.\<close> and
  \<^verbatim>\<open>..\<close> segments: the common leading segments are dropped, each segment left of
  \<^verbatim>\<open>from\<close> becomes \<^verbatim>\<open>..\<close>, and the rest of \<^verbatim>\<open>to\<close> follows.
\<close>

fun splitOn :: "char \<Rightarrow> string \<Rightarrow> string list" where
  "splitOn c [] = [[]]"
| "splitOn c (x # xs) =
     (if x = c then [] # splitOn c xs
      else (case splitOn c xs of [] \<Rightarrow> [[x]] | w # ws \<Rightarrow> (x # w) # ws))"

definition segments :: "string \<Rightarrow> string list" where
  "segments p = filter (\<lambda>w. w \<noteq> []) (splitOn CHR ''/'' p)"

fun dropCommonPrefix :: "'a list \<Rightarrow> 'a list \<Rightarrow> 'a list \<times> 'a list" where
  "dropCommonPrefix (x # xs) (y # ys) =
     (if x = y then dropCommonPrefix xs ys else (x # xs, y # ys))"
| "dropCommonPrefix xs ys = (xs, ys)"

definition posixRelative :: "string \<Rightarrow> string \<Rightarrow> string" where
  "posixRelative from to =
     (case dropCommonPrefix (segments from) (segments to) of
        (up, down) \<Rightarrow> join ''/'' (map (\<lambda>w. ''..'') up @ down))"

text \<open>
  The project lives in \<^verbatim>\<open>/p\<close>. The sample source model lists a declaration among the
  references of its own name, as ts-morph does.
  \<^item> \<^verbatim>\<open>/p/index.ts\<close>, the entry file, imports the unlisted \<^verbatim>\<open>lodash\<close>; its default
    export is an arrow function.
  \<^item> \<^verbatim>\<open>/p/a.ts\<close> exports \<^verbatim>\<open>x\<close>, also under the name \<^verbatim>\<open>y\<close>, and \<^verbatim>\<open>z\<close>;
    \<^verbatim>\<open>z\<close> is used in \<^verbatim>\<open>/p/b.ts\<close>, \<^verbatim>\<open>x\<close> is used nowhere. The file imports the
    unlisted \<^verbatim>\<open>chalk\<close>.
  \<^item> \<^verbatim>\<open>/p/b.ts\<close> exports the type alias \<^verbatim>\<open>T\<close>, used nowhere, and \<^verbatim>\<open>v\<close>, which is
    used in \<^verbatim>\<open>/p/a.ts\<close>.
  \<^item> \<^verbatim>\<open>/p/c.ts\<close> exports only \<^verbatim>\<open>baz\<close>, used nowhere.
  \<^item> \<^verbatim>\<open>/p/d.ts\<close> exports \<^verbatim>\<open>x\<close> and its alias \<^verbatim>\<open>y\<close>; the duplicate detector
    reports the group \<^verbatim>\<open>x, y\<close> for it, and the group \<^verbatim>\<open>y, x\<close> for \<^verbatim>\<open>/p/e.ts\<close>.
  \<^item> \<^verbatim>\<open>/p/n.ts\<close> is accessed through a namespace import; it exports \<^verbatim>\<open>helper\<close>
    and the interface \<^verbatim>\<open>Shape\<close>, both referenced in \<^verbatim>\<open>/p/n.ts\<close> only, and \<^verbatim>\<open>w\<close>.
  \<^item> \<^verbatim>\<open>/p/m.ts\<close> exports the single name \<^verbatim>\<open>Foo\<close>, which an interface and a
    constant declare together; neither is used outside the file.
  \<^item> \<^verbatim>\<open>/p/g.ts\<close> has as default export the identifier \<^verbatim>\<open>gone\<close>, for which the
    source model knows no declaration and no reference, and exports \<^verbatim>\<open>k\<close>.
  \<^item> \<^verbatim>\<open>/p/unused.ts\<close> is a project file that no entry file reaches.
  The sample's \<^verbatim>\<open>getLine\<close> and percentage are stand-ins that only give the progress
  lines a text; no property below depends on them.
\<close>

definition identifierNode :: "string \<Rightarrow> nat \<Rightarrow> string \<Rightarrow> node" where
  "identifierNode path p name = Node Identifier path p name []"

definition variable :: "string \<Rightarrow> nat \<Rightarrow> string \<Rightarrow> node" where
  "variable path p name =
     Node VariableDeclaration path p (name @ '' = 1'') [identifierNode path p name]"

definition declX :: node where "declX = variable ''/p/a.ts'' 13 ''x''"
definition declZ :: node where "declZ = variable ''/p/a.ts'' 40 ''z''"
definition declV :: node where "declV = variable ''/p/b.ts'' 50 ''v''"
definition declBaz :: node where "declBaz = variable ''/p/c.ts'' 13 ''baz''"
definition declHelper :: node where "declHelper = variable ''/p/n.ts'' 60 ''helper''"

definition declT :: node where
  "declT = Node TypeAliasDeclaration ''/p/b.ts'' 7 ''type T = number''
             [identifierNode ''/p/b.ts'' 12 ''T'']"

definition declShape :: node where
  "declShape = Node InterfaceDeclaration ''/p/n.ts'' 70 ''interface Shape {}''
                 [identifierNode ''/p/n.ts'' 80 ''Shape'']"




definition declArrow :: node where
  "declArrow = Node ArrowFunction ''/p/index.ts'' 15 ''() => 1'' []"

definition fileA :: sourceFile where
  "fileA = \<lparr>getFilePath = ''/p/a.ts'',
            getExportedDeclarations = [(''x'', [declX]), (''y'', [declX]), (''z'', [declZ])]\<rparr>"

definition fileB :: sourceFile where
  "fileB = \<lparr>getFilePath = ''/p/b.ts'',
            getExportedDeclarations = [(''T'', [declT]), (''v'', [declV])]\<rparr>"

definition fileC :: sourceFile where
  "fileC = \<lparr>getFilePath = ''/p/c.ts'', getExportedDeclarations = [(''baz'', [declBaz])]\<rparr>"

definition fileD :: sourceFile where
  "fileD = \<lparr>getFilePath = ''/p/d.ts'',
            getExportedDeclarations =
              [(''x'', [variable ''/p/d.ts'' 13 ''x'']), (''y'', [variable ''/p/d.ts'' 13 ''x''])]\<rparr>"

definition fileE :: sourceFile where
  "fileE = \<lparr>getFilePath = ''/p/e.ts'',
            getExportedDeclarations =
              [(''y'', [variable ''/p/e.ts'' 13 ''x'']), (''x'', [variable ''/p/e.ts'' 13 ''x''])]\<rparr>"

definition fileN :: sourceFile where
  "fileN = \<lparr>getFilePath = ''/p/n.ts'',
            getExportedDeclarations =
              [(''helper'', [declHelper]), (''Shape'', [declShape]),
               (''w'', [variable ''/p/n.ts'' 90 ''w''])]\<rparr>"



definition fileU :: sourceFile where
  "fileU = \<lparr>getFilePath = ''/p/unused.ts'',
            getExportedDeclarations = [(''q'', [variable ''/p/unused.ts'' 13 ''q''])]\<rparr>"

definition fileIndex :: sourceFile where
  "fileIndex = \<lparr>getFilePath = ''/p/index.ts'',
                getExportedDeclarations =
                  [(''default'', [declArrow]), (''w'', [variable ''/p/index.ts'' 90 ''w''])]\<rparr>"

definition unlistedIn :: "string \<Rightarrow> string \<Rightarrow> issue" where
  "unlistedIn path name = \<lparr>filePath = path, symbol = name, symbols = None, symbolType = None\<rparr>"

definition sampleCapabilities :: capabilities where
  "sampleCapabilities =
     \<lparr>relative = posixRelative,
      getUnresolvedDependencies =
        (\<lambda>f. if getFilePath f = ''/p/index.ts'' then [unlistedIn ''/p/index.ts'' ''lodash'']
              else if getFilePath f = ''/p/a.ts'' then [unlistedIn ''/p/a.ts'' ''chalk'']
              else []),
      getUnusedDependencies = [''left-pad''],
      getUnusedDevDependencies = [],
      findDuplicateExportedNames =
        (\<lambda>f. if getFilePath f = ''/p/d.ts'' then [[''x'', ''y'']]
              else if getFilePath f = ''/p/e.ts'' then [[''y'', ''x'']]
              else []),
      findReferencingNamespaceNodes =
        (\<lambda>f. if getFilePath f = ''/p/n.ts''
              then [Node OtherKind ''/p/index.ts'' 0 ''* as n'' []] else []),
      getType =
        (\<lambda>n. if kind n = TypeAliasDeclaration then Some ''type''
              else if kind n = InterfaceDeclaration then Some ''interface''
              else if kind n = EnumDeclaration then Some ''enum''
              else None),
      getJSDocPublicTag = (\<lambda>n. False),
      findReferences =
        (\<lambda>n. if kind n \<noteq> Identifier then []
              else if getText n = ''gone'' then []
              else if getText n = ''z'' then [[nodeFile n, ''/p/b.ts'']]
              else if getText n = ''v'' then [[nodeFile n, ''/p/a.ts'']]
              else if getText n = ''helper'' then [[nodeFile n, nodeFile n]]
              else [[nodeFile n]]),
      getLine = (\<lambda>v title. (case v of Num k \<Rightarrow> showNat k | Str w \<Rightarrow> w) @ '' '' @ title),
      floorPercentage = (\<lambda>counter total. showNat (counter * 100 div total))\<rparr>"

definition allReported :: report where
  "allReported =
     \<lparr>files = True, dependencies = True, unlisted = True, exports = True, types = True,
      nsExports = True, nsTypes = True, duplicates = True\<rparr>"

definition sampleConfiguration :: configuration where
  "sampleConfiguration =
     \<lparr>workingDir = ''/p'', isShowProgress = False, report = allReported, isDev = False,
      jsDocOptions = \<lparr>isReadPublicTag = False\<rparr>,
      entryFiles = [fileIndex],
      productionFiles = [fileIndex, fileA, fileB, fileC],
      projectFiles = [fileIndex, fileA, fileB, fileC, fileU]\<rparr>"

text \<open>The state once \<^verbatim>\<open>x\<close> of \<^verbatim>\<open>/p/a.ts\<close> has been recorded as an unused export.\<close>

definition issueX :: issue where
  "issueX = \<lparr>filePath = ''/p/a.ts'', symbol = ''x'', symbols = None, symbolType = None\<rparr>"

definition afterFirstX :: state where
  "afterFirstX = addSymbolIssue sampleCapabilities sampleConfiguration [] Exports issueX
                   (initialState [])"

section \<open>Frame lemmas of the aggregator\<close>

lemma updateProcessingOutput_frame [simp]:
  "projectIssues (updateProcessingOutput cap cfg u i s) = projectIssues s"
  "symbolIssues (updateProcessingOutput cap cfg u i s) = symbolIssues s"
  "projectCounters (updateProcessingOutput cap cfg u i s) = projectCounters s"
  "symbolCounters (updateProcessingOutput cap cfg u i s) = symbolCounters s"
  "processed (updateProcessingOutput cap cfg u i s) = processed s"
  by (simp_all add: updateProcessingOutput_def)

lemma addSymbolIssue_frame [simp]:
  "projectIssues (addSymbolIssue cap cfg u ty i s) = projectIssues s"
  "projectCounters (addSymbolIssue cap cfg u ty i s) = projectCounters s"
  "processed (addSymbolIssue cap cfg u ty i s) = processed s"
  by (simp_all add: addSymbolIssue_def Let_def)

lemma addSymbolIssue_other [simp]:
  "t \<noteq> ty \<Longrightarrow> symbolIssues (addSymbolIssue cap cfg u ty i s) t = symbolIssues s t"
  "t \<noteq> ty \<Longrightarrow> symbolCounters (addSymbolIssue cap cfg u ty i s) t = symbolCounters s t"
  by (simp_all add: addSymbolIssue_def Let_def)

lemma addSymbolIssue_counter [simp]:
  "symbolCounters (addSymbolIssue cap cfg u ty i s) ty = symbolCounters s ty + 1"
  by (simp add: addSymbolIssue_def Let_def)

lemma addSymbolIssue_store:
  "symbolIssues (addSymbolIssue cap cfg u ty i s) ty =
     AList.update (relative cap (workingDir cfg) (filePath i))
       (AList.update (symbol i) i
          (case map_of (symbolIssues s ty) (relative cap (workingDir cfg) (filePath i)) of
             None \<Rightarrow> [] | Some m \<Rightarrow> m))
       (symbolIssues s ty)"
  by (simp add: addSymbolIssue_def Let_def)

lemma getIssue_addSymbolIssue:
  "getIssue (symbolIssues (addSymbolIssue cap cfg u ty i s) ty) k n =
     (if k = relative cap (workingDir cfg) (filePath i) \<and> n = symbol i then Some i
      else getIssue (symbolIssues s ty) k n)"
  by (auto simp: addSymbolIssue_store getIssue_def update_conv' split: option.splits)

lemma hasIssue_getIssue: "hasIssue store k n \<longleftrightarrow> getIssue store k n \<noteq> None"
  by (simp add: hasIssue_def getIssue_def split: option.splits)

section \<open>Exported arrow functions\<close>

text \<open>
  Claim C10. An exported declaration that is an arrow function gets no identifier
  (lines 227 and 228), so the callback leaves the stores and the counters as they are:
  no \<^verbatim>\<open>exports\<close>, \<^verbatim>\<open>types\<close>, \<^verbatim>\<open>nsExports\<close> or \<^verbatim>\<open>nsTypes\<close> issue is
  recorded for it, whatever the reference lookup would answer.
\<close>

theorem arrow_function_is_skipped:
  "kind decl = ArrowFunction \<Longrightarrow>
     declarationIdentifier decl = Inr None
     \<and> processDeclaration cap cfg unref sourceFile decl s = Inr s"
  by (simp add: declarationIdentifier_def processDeclaration_def Let_def)

theorem arrow_function_is_skipped_witness:
  "kind declArrow = ArrowFunction
   \<and> findReferences sampleCapabilities declArrow = []
   \<and> declarationIdentifier declArrow = Inr None
   \<and> processDeclaration sampleCapabilities sampleConfiguration [] fileIndex declArrow
        (initialState []) = Inr (initialState [])"
proof -
  have k: "kind declArrow = ArrowFunction"
    by (simp add: declArrow_def)
  have r: "findReferences sampleCapabilities declArrow = []"
    by (simp add: sampleCapabilities_def declArrow_def)
  from arrow_function_is_skipped [OF k] k r show ?thesis
    by simp
qed

lemma fold_setAdd:
  "distinct acc \<Longrightarrow>
     distinct (fold setAdd xs acc) \<and> set (fold setAdd xs acc) = set acc \<union> set xs"
  by (induction xs arbitrary: acc) (auto simp: setAdd_def)

lemma set_newSet [simp]: "set (newSet xs) = set xs"
  using fold_setAdd [of "[]" xs] by (simp add: newSet_def)

lemma distinct_newSet [simp]: "distinct (newSet xs)"
  using fold_setAdd [of "[]" xs] by (simp add: newSet_def)

lemma length_newSet: "length (newSet xs) = card (set xs)"
  using distinct_card [OF distinct_newSet, of xs] by simp

lemma fold_addSymbolIssue_other:
  "t \<noteq> ty \<Longrightarrow>
     symbolIssues (fold (\<lambda>x. addSymbolIssue cap cfg u ty (g x)) xs s) t = symbolIssues s t
     \<and> symbolCounters (fold (\<lambda>x. addSymbolIssue cap cfg u ty (g x)) xs s) t = symbolCounters s t"
  by (induction xs arbitrary: s) simp_all

lemma collectUnresolved_other:
  "t \<noteq> Unresolved \<Longrightarrow>
     symbolIssues (collectUnresolved cap cfg u sf s) t = symbolIssues s t
     \<and> symbolCounters (collectUnresolved cap cfg u sf s) t = symbolCounters s t"
  unfolding collectUnresolved_def
  using fold_addSymbolIssue_other [where g = "\<lambda>x. x"] by simp

lemma collectDuplicates_other:
  "t \<noteq> Duplicates \<Longrightarrow>
     symbolIssues (collectDuplicates cap cfg u sf s) t = symbolIssues s t
     \<and> symbolCounters (collectDuplicates cap cfg u sf s) t = symbolCounters s t"
  unfolding collectDuplicates_def
  by (rule fold_addSymbolIssue_other)

section \<open>The early exit for a file with one export\<close>




lemma isReferencedOnlyBySelf_iff:
  "isReferencedOnlyBySelf refs path \<longleftrightarrow> set (concat refs) = {path}"
proof
  assume "isReferencedOnlyBySelf refs path"
  then have len: "length (newSet (concat refs)) = 1" and hd: "newSet (concat refs) ! 0 = path"
    by (simp_all add: isReferencedOnlyBySelf_def Let_def)
  from len obtain x where x: "newSet (concat refs) = [x]"
    by (cases "newSet (concat refs)") auto
  with hd have "x = path" by simp
  with x have "set (newSet (concat refs)) = {path}" by simp
  then show "set (concat refs) = {path}" by simp
next
  assume s: "set (concat refs) = {path}"
  then have "length (newSet (concat refs)) = 1"
    by (simp add: length_newSet)
  moreover have "set (newSet (concat refs)) = {path}"
    using s by simp
  ultimately show "isReferencedOnlyBySelf refs path"
    by (cases "newSet (concat refs)") (auto simp: isReferencedOnlyBySelf_def Let_def)
qed

lemma classifyIdentifier_self:
  assumes self: "set (concat (findReferences cap identifier)) = {getFilePath sourceFile}"
  shows "classifyIdentifier cap cfg unref sourceFile type identifier s =
     (if alreadyRecorded (report cfg) s (getFilePath sourceFile) (getText identifier) then s
      else addSymbolIssue cap cfg unref
             (if findReferencingNamespaceNodes cap sourceFile \<noteq> []
              then (if truthy type then NsTypes else NsExports)
              else (if truthy type then Types else Exports))
             \<lparr>filePath = getFilePath sourceFile, symbol = getText identifier, symbols = None,
              symbolType = (if truthy type then type else None)\<rparr> s)"
proof -
  have ne: "findReferences cap identifier \<noteq> []"
    using self by auto
  have only: "isReferencedOnlyBySelf (findReferences cap identifier) (getFilePath sourceFile)"
    using self by (simp add: isReferencedOnlyBySelf_iff)
  show ?thesis
    using ne only by (simp add: classifyIdentifier_def Let_def)
qed

section \<open>Declarations referenced only in their own file\<close>

text \<open>
  Claim C3. Let the declaration have an identifier whose references all lie in the
  declaring file (and there is at least one). The category chosen by lines 264 to 274 is
  \<^verbatim>\<open>nsTypes\<close> for a type and \<^verbatim>\<open>nsExports\<close> otherwise when the file is the target
  of namespace access, and \<^verbatim>\<open>types\<close> for a type and \<^verbatim>\<open>exports\<close> otherwise when
  it is not. The callback of lines 213 to 277 throws nothing and leaves the store and the
  counter of every other category as they were; so in the namespace case nothing is
  recorded under \<^verbatim>\<open>exports\<close> or \<^verbatim>\<open>types\<close>, and no declaration is counted under
  two categories. When the declaration reaches the reference lookup (it is of a reported
  kind, is not skipped for its public tag and is not found already recorded), the
  callback is one call of \<^verbatim>\<open>addSymbolIssue\<close>: afterwards the store of the chosen
  category holds the issue under the file's key and the identifier's text, its counter
  has grown by one, and its other entries are as before. Otherwise the callback changes
  nothing.
\<close>

theorem self_referenced_declaration_category:
  assumes ident: "declarationIdentifier decl = Inr (Some identifier)"
      and self: "set (concat (findReferences cap identifier)) = {getFilePath sourceFile}"
  shows
    "let category = (if findReferencingNamespaceNodes cap sourceFile \<noteq> []
                     then (if truthy (getType cap decl) then NsTypes else NsExports)
                     else (if truthy (getType cap decl) then Types else Exports));
         item = \<lparr>filePath = getFilePath sourceFile, symbol = getText identifier,
                 symbols = None,
                 symbolType = (if truthy (getType cap decl) then getType cap decl else None)\<rparr>;
         key = relative cap (workingDir cfg) (getFilePath sourceFile)
     in (\<exists>s'. processDeclaration cap cfg unref sourceFile decl s = Inr s'
           \<and> (\<forall>t. t \<noteq> category
                  \<longrightarrow> symbolIssues s' t = symbolIssues s t
                      \<and> symbolCounters s' t = symbolCounters s t))
        \<and> (\<not> notReported (report cfg) (getType cap decl)
            \<and> \<not> (isReadPublicTag (jsDocOptions cfg) \<and> getJSDocPublicTag cap decl)
            \<and> \<not> alreadyRecorded (report cfg) s (getFilePath sourceFile) (getText identifier)
            \<longrightarrow> (\<exists>s'. processDeclaration cap cfg unref sourceFile decl s = Inr s'
                   \<and> s' = addSymbolIssue cap cfg unref category item s
                   \<and> getIssue (symbolIssues s' category) key (getText identifier) = Some item
                   \<and> symbolCounters s' category = symbolCounters s category + 1
                   \<and> (\<forall>k n. k \<noteq> key \<or> n \<noteq> getText identifier
                          \<longrightarrow> getIssue (symbolIssues s' category) k n
                              = getIssue (symbolIssues s category) k n)))
        \<and> (notReported (report cfg) (getType cap decl)
            \<or> (isReadPublicTag (jsDocOptions cfg) \<and> getJSDocPublicTag cap decl)
            \<or> alreadyRecorded (report cfg) s (getFilePath sourceFile) (getText identifier)
            \<longrightarrow> processDeclaration cap cfg unref sourceFile decl s = Inr s)"
proof -
  let ?cat = "if findReferencingNamespaceNodes cap sourceFile \<noteq> []
              then (if truthy (getType cap decl) then NsTypes else NsExports)
              else (if truthy (getType cap decl) then Types else Exports)"
  let ?item = "\<lparr>filePath = getFilePath sourceFile, symbol = getText identifier,
                 symbols = None,
                 symbolType = (if truthy (getType cap decl) then getType cap decl else None)\<rparr>"
  let ?key = "relative cap (workingDir cfg) (getFilePath sourceFile)"
  let ?skip = "notReported (report cfg) (getType cap decl)
      \<or> (isReadPublicTag (jsDocOptions cfg) \<and> getJSDocPublicTag cap decl)
      \<or> alreadyRecorded (report cfg) s (getFilePath sourceFile) (getText identifier)"
  note c = classifyIdentifier_self [OF self, of cfg unref "getType cap decl" s]
  have skipped: "processDeclaration cap cfg unref sourceFile decl s = Inr s" if ?skip
    using that by (auto simp: processDeclaration_def Let_def ident c)
  have added: "processDeclaration cap cfg unref sourceFile decl s
      = Inr (addSymbolIssue cap cfg unref ?cat ?item s)" if "\<not> ?skip"
    using that by (auto simp: processDeclaration_def Let_def ident c)
  have frame: "\<exists>s'. processDeclaration cap cfg unref sourceFile decl s = Inr s'
      \<and> (\<forall>t. t \<noteq> ?cat \<longrightarrow> symbolIssues s' t = symbolIssues s t
                          \<and> symbolCounters s' t = symbolCounters s t)"
  proof (cases ?skip)
    case True
    then show ?thesis
      using skipped by simp
  next
    case False
    then show ?thesis
      using added by simp
  qed
  have recorded: "getIssue (symbolIssues (addSymbolIssue cap cfg unref ?cat ?item s) ?cat) ?key
      (getText identifier) = Some ?item"
    by (simp add: getIssue_addSymbolIssue)
  have counted: "symbolCounters (addSymbolIssue cap cfg unref ?cat ?item s) ?cat
      = symbolCounters s ?cat + 1"
    by (rule addSymbolIssue_counter)
  have others: "getIssue (symbolIssues (addSymbolIssue cap cfg unref ?cat ?item s) ?cat) k n
      = getIssue (symbolIssues s ?cat) k n" if "k \<noteq> ?key \<or> n \<noteq> getText identifier" for k n
    using that by (auto simp: getIssue_addSymbolIssue)
  have reached: "\<exists>s'. processDeclaration cap cfg unref sourceFile decl s = Inr s'
      \<and> s' = addSymbolIssue cap cfg unref ?cat ?item s
      \<and> getIssue (symbolIssues s' ?cat) ?key (getText identifier) = Some ?item
      \<and> symbolCounters s' ?cat = symbolCounters s ?cat + 1
      \<and> (\<forall>k n. k \<noteq> ?key \<or> n \<noteq> getText identifier
             \<longrightarrow> getIssue (symbolIssues s' ?cat) k n = getIssue (symbolIssues s ?cat) k n)"
    if "\<not> ?skip"
    using added [OF that] recorded counted others by blast
  show ?thesis
    unfolding Let_def
    using frame reached skipped by blast
qed

theorem self_referenced_declaration_category_witness:
  "declarationIdentifier declShape = Inr (Some (identifierNode ''/p/n.ts'' 80 ''Shape''))
   \<and> set (concat (findReferences sampleCapabilities (identifierNode ''/p/n.ts'' 80 ''Shape'')))
       = {getFilePath fileN}
   \<and> findReferencingNamespaceNodes sampleCapabilities fileN \<noteq> []
   \<and> truthy (getType sampleCapabilities declShape)
   \<and> \<not> notReported (report sampleConfiguration) (getType sampleCapabilities declShape)
   \<and> \<not> alreadyRecorded (report sampleConfiguration) (initialState []) (getFilePath fileN)
         (getText (identifierNode ''/p/n.ts'' 80 ''Shape''))
   \<and> (\<exists>s'. processDeclaration sampleCapabilities sampleConfiguration [] fileN declShape
               (initialState []) = Inr s'
          \<and> getIssue (symbolIssues s' NsTypes) ''n.ts'' ''Shape''
              = Some \<lparr>filePath = ''/p/n.ts'', symbol = ''Shape'', symbols = None,
                      symbolType = Some ''interface''\<rparr>
          \<and> symbolCounters s' NsTypes = 1
          \<and> symbolIssues s' Types = [] \<and> symbolCounters s' Types = 0
          \<and> symbolIssues s' Exports = [] \<and> symbolCounters s' Exports = 0)"
proof -
  let ?id = "identifierNode ''/p/n.ts'' 80 ''Shape''"
  have ident: "declarationIdentifier declShape = Inr (Some ?id)"
    by (simp add: declarationIdentifier_def declShape_def orThrow_def getFirstChildByKind_def
        identifierNode_def)
  have self: "set (concat (findReferences sampleCapabilities ?id)) = {getFilePath fileN}"
    by (simp add: sampleCapabilities_def fileN_def identifierNode_def)
  have ns: "findReferencingNamespaceNodes sampleCapabilities fileN \<noteq> []"
    by (simp add: sampleCapabilities_def fileN_def)
  have ty: "getType sampleCapabilities declShape = Some ''interface''"
    by (simp add: sampleCapabilities_def declShape_def)
  have tr: "truthy (getType sampleCapabilities declShape)"
    by (simp add: ty truthy_def)
  have rep: "\<not> notReported (report sampleConfiguration) (getType sampleCapabilities declShape)"
    by (simp add: notReported_def sampleConfiguration_def allReported_def)
  have tag: "\<not> (isReadPublicTag (jsDocOptions sampleConfiguration)
                \<and> getJSDocPublicTag sampleCapabilities declShape)"
    by (simp add: sampleConfiguration_def)
  have new: "\<not> alreadyRecorded (report sampleConfiguration) (initialState []) (getFilePath fileN)
      (getText ?id)"
    by (simp add: alreadyRecorded_def hasIssue_def initialState_def Let_def)
  have key: "relative sampleCapabilities (workingDir sampleConfiguration) (getFilePath fileN)
      = ''n.ts''"
    by code_simp
  have nm: "getText ?id = ''Shape''" and fp: "getFilePath fileN = ''/p/n.ts''"
    by (simp_all add: identifierNode_def fileN_def)
  have init: "symbolIssues (initialState []) t = [] \<and> symbolCounters (initialState []) t = 0" for t
    by (simp add: initialState_def Let_def)
  let ?cat = "if findReferencingNamespaceNodes sampleCapabilities fileN \<noteq> []
              then (if truthy (getType sampleCapabilities declShape) then NsTypes else NsExports)
              else (if truthy (getType sampleCapabilities declShape) then Types else Exports)"
  let ?item = "\<lparr>filePath = getFilePath fileN, symbol = getText ?id, symbols = None,
                 symbolType = (if truthy (getType sampleCapabilities declShape)
                               then getType sampleCapabilities declShape else None)\<rparr>"
  have cat: "?cat = NsTypes"
    using ns tr by simp
  have item: "?item = \<lparr>filePath = ''/p/n.ts'', symbol = ''Shape'', symbols = None,
                          symbolType = Some ''interface''\<rparr>"
    using tr by (simp add: ty nm fp)
  from self_referenced_declaration_category [OF ident self, of sampleConfiguration "[]"
      "initialState []", unfolded Let_def] rep tag new
  obtain s' where
    run: "processDeclaration sampleCapabilities sampleConfiguration [] fileN declShape
            (initialState []) = Inr s'"
    and eq: "s' = addSymbolIssue sampleCapabilities sampleConfiguration [] ?cat ?item
                    (initialState [])"
    and rec: "getIssue (symbolIssues s' ?cat)
                (relative sampleCapabilities (workingDir sampleConfiguration) (getFilePath fileN))
                (getText ?id) = Some ?item"
    and cnt: "symbolCounters s' ?cat = symbolCounters (initialState []) ?cat + 1"
    by blast
  from rec have r1: "getIssue (symbolIssues s' NsTypes) ''n.ts'' ''Shape''
      = Some \<lparr>filePath = ''/p/n.ts'', symbol = ''Shape'', symbols = None,
              symbolType = Some ''interface''\<rparr>"
    unfolding cat key nm using tr by (simp add: ty fp)
  from cnt have r2: "symbolCounters s' NsTypes = 1"
    unfolding cat by (simp add: init)
  from eq have r3: "symbolIssues s' Types = [] \<and> symbolCounters s' Types = 0
      \<and> symbolIssues s' Exports = [] \<and> symbolCounters s' Exports = 0"
    unfolding cat by (simp add: init)
  from run r1 r2 r3 ident self ns tr rep new show ?thesis
    by blast
qed

section \<open>Declarations with zero references\<close>




section \<open>Invariants of the loops\<close>

lemma fold_preserves:
  assumes "\<And>x s. x \<in> set xs \<Longrightarrow> Q s \<Longrightarrow> Q (f x s)" and "Q s"
  shows "Q (fold f xs s)"
  using assms by (induction xs arbitrary: s) simp_all

lemma forEach_preserves:
  assumes step: "\<And>x s s'. f x s = Inr s' \<Longrightarrow> Q s \<Longrightarrow> Q s'"
  shows "forEach f xs s = Inr s' \<Longrightarrow> Q s \<Longrightarrow> Q s'"
  by (induction xs arbitrary: s) (auto split: sum.splits intro: step)

lemma forEach_same:
  assumes step: "\<And>x s s'. f x s = Inr s' \<Longrightarrow> g s' = g s"
      and run: "forEach f xs s = Inr s'"
  shows "g s' = g s"
proof (rule forEach_preserves [where Q = "\<lambda>t. g t = g s" and f = f, OF _ run])
  fix x t t'
  assume "f x t = Inr t'" and "g t = g s"
  then show "g t' = g s"
    using step [of x t t'] by simp
qed simp

lemma fold_same:
  assumes step: "\<And>x s. g (f x s) = g s"
  shows "g (fold f xs s) = g s"
  by (induction xs arbitrary: s) (simp_all add: step)

lemma addProjectIssue_frame [simp]:
  "symbolIssues (addProjectIssue cap cfg u ty i s) = symbolIssues s"
  "symbolCounters (addProjectIssue cap cfg u ty i s) = symbolCounters s"
  "processed (addProjectIssue cap cfg u ty i s) = processed s"
  by (simp_all add: addProjectIssue_def)

lemma addProjectIssue_other [simp]:
  "t \<noteq> ty \<Longrightarrow> projectIssues (addProjectIssue cap cfg u ty i s) t = projectIssues s t"
  "t \<noteq> ty \<Longrightarrow> projectCounters (addProjectIssue cap cfg u ty i s) t = projectCounters s t"
  by (simp_all add: addProjectIssue_def)

lemma classifyIdentifier_projectIssues [simp]:
  "projectIssues (classifyIdentifier cap cfg u sf type identifier s) = projectIssues s"
  by (simp add: classifyIdentifier_def Let_def)


lemma collectUnresolved_projectIssues [simp]:
  "projectIssues (collectUnresolved cap cfg u sf s) = projectIssues s"
  unfolding collectUnresolved_def
  by (rule fold_same) simp

lemma collectDuplicates_projectIssues [simp]:
  "projectIssues (collectDuplicates cap cfg u sf s) = projectIssues s"
  unfolding collectDuplicates_def
  by (rule fold_same) simp



lemma processEntryFile_projectIssues [simp]:
  "projectIssues (processEntryFile cap cfg u sf s) = projectIssues s"
  by (simp add: processEntryFile_def)

lemma entryPass_projectIssues [simp]:
  "projectIssues (entryPass cap cfg u fs s) = projectIssues s"
proof -
  have "projectIssues (fold (processEntryFile cap cfg u) fs s) = projectIssues s"
    by (rule fold_same) simp
  then show ?thesis
    by (simp add: entryPass_def)
qed


lemma projectPass_Files [simp]:
  "projectIssues (projectPass cap cfg u s) Files = projectIssues s Files"
proof -
  have deps: "projectIssues (fold (\<lambda>name. addProjectIssue cap cfg u Dependencies (g name)) xs s0) Files
      = projectIssues s0 Files" for g xs s0
    by (rule fold_same [where g = "\<lambda>t. projectIssues t Files"]) simp
  have dev: "projectIssues (fold (\<lambda>name. addProjectIssue cap cfg u DevDependencies (g name)) xs s0)
      Files = projectIssues s0 Files" for g xs s0
    by (rule fold_same [where g = "\<lambda>t. projectIssues t Files"]) simp
  show ?thesis
    by (simp add: projectPass_def Let_def deps dev)
qed

lemma resetLines_frame [simp]:
  "projectIssues (resetLines cfg s) = projectIssues s"
  "symbolIssues (resetLines cfg s) = symbolIssues s"
  "projectCounters (resetLines cfg s) = projectCounters s"
  "symbolCounters (resetLines cfg s) = symbolCounters s"
  "processed (resetLines cfg s) = processed s"
  by (simp_all add: resetLines_def)


section \<open>The file partitioner\<close>




section \<open>Categories the classifier does not touch\<close>

lemma classifyIdentifier_keeps:
  "t = Unresolved \<or> t = Duplicates \<Longrightarrow>
     symbolIssues (classifyIdentifier cap cfg u sf type identifier s) t = symbolIssues s t
     \<and> symbolCounters (classifyIdentifier cap cfg u sf type identifier s) t = symbolCounters s t"
  by (auto simp: classifyIdentifier_def Let_def)

lemma processDeclaration_keeps:
  "processDeclaration cap cfg u sf decl s = Inr s' \<Longrightarrow> t = Unresolved \<or> t = Duplicates \<Longrightarrow>
     (symbolIssues s' t, symbolCounters s' t) = (symbolIssues s t, symbolCounters s t)"
  using classifyIdentifier_keeps [of t cap cfg u sf]
  by (auto simp: processDeclaration_def Let_def split: if_splits sum.splits option.splits)

lemma classifyExports_keeps:
  assumes run: "classifyExports cap cfg u sf s = Inr s'" and t: "t = Unresolved \<or> t = Duplicates"
  shows "(symbolIssues s' t, symbolCounters s' t) = (symbolIssues s t, symbolCounters s t)"
proof (cases "length (newSet (concat (map snd (getExportedDeclarations sf)))) = 1")
  case True
  with run show ?thesis
    by (simp add: classifyExports_def Let_def)
next
  case False
  with run have loop: "forEach (\<lambda>ds. forEach (processDeclaration cap cfg u sf) ds)
      (map snd (getExportedDeclarations sf)) s = Inr s'"
    by (simp add: classifyExports_def Let_def)
  have inner: "forEach (processDeclaration cap cfg u sf) ds s1 = Inr s2 \<Longrightarrow>
      (symbolIssues s2 t, symbolCounters s2 t) = (symbolIssues s1 t, symbolCounters s1 t)"
    for ds s1 s2
    by (rule forEach_same [where f = "processDeclaration cap cfg u sf"
          and g = "\<lambda>s. (symbolIssues s t, symbolCounters s t)"])
      (rule processDeclaration_keeps [OF _ t])
  show ?thesis
    by (rule forEach_same [OF _ loop, where g = "\<lambda>s. (symbolIssues s t, symbolCounters s t)"])
      (rule inner)
qed

section \<open>Duplicate exports\<close>

lemma duplicates_fold_recorded:
  assumes "names \<in> set groups" and "inj_on (join ''|'') (set groups)"
  shows "getIssue
           (symbolIssues
              (fold (\<lambda>names. addSymbolIssue cap cfg u Duplicates
                       \<lparr>filePath = path, symbol = join ''|'' names, symbols = Some names,
                        symbolType = None\<rparr>) groups s) Duplicates)
           (relative cap (workingDir cfg) path) (join ''|'' names)
         = Some \<lparr>filePath = path, symbol = join ''|'' names, symbols = Some names,
                 symbolType = None\<rparr>"
  using assms
proof (induction groups rule: rev_induct)
  case Nil
  then show ?case by simp
next
  case (snoc g groups)
  show ?case
  proof (cases "join ''|'' names = join ''|'' g")
    case True
    from snoc.prems(2) have inj: "inj_on (join ''|'') (insert g (set groups))"
      by simp
    have "names = g"
      using inj_on_eq_iff [OF inj, of names g] True snoc.prems(1) by auto
    then show ?thesis
      by (simp add: getIssue_addSymbolIssue)
  next
    case False
    with snoc.prems have "names \<in> set groups" and "inj_on (join ''|'') (set groups)"
      by (auto simp: inj_on_def)
    with snoc.IH False show ?thesis
      by (simp add: getIssue_addSymbolIssue)
  qed
qed

lemma duplicates_fold_others:
  "k \<noteq> relative cap (workingDir cfg) path \<or> n \<notin> join ''|'' ` set groups \<Longrightarrow>
     getIssue
       (symbolIssues
          (fold (\<lambda>names. addSymbolIssue cap cfg u Duplicates
                   \<lparr>filePath = path, symbol = join ''|'' names, symbols = Some names,
                    symbolType = None\<rparr>) groups s) Duplicates) k n
     = getIssue (symbolIssues s Duplicates) k n"
  by (induction groups arbitrary: s) (auto simp: getIssue_addSymbolIssue)

lemma duplicates_fold_counter:
  "symbolCounters
     (fold (\<lambda>names. addSymbolIssue cap cfg u Duplicates (item names)) groups s) Duplicates
   = symbolCounters s Duplicates + length groups"
  by (induction groups arbitrary: s) simp_all

text \<open>
  Claim C7, as amended. The key of a \<^verbatim>\<open>duplicates\<close> issue is the group joined with
  \<^verbatim>\<open>|\<close> in the order in which \<^verbatim>\<open>findDuplicateExportedNames\<close> returns it (line 203
  joins and does not sort). When duplicates are reported and the joined keys of the
  file's groups are pairwise different, processing a non-entry reachable file records,
  for each group, one issue under the file's key and the joined names, holding the path,
  the key and the full list of names (line 204); the counter grows by the number of
  groups; every other entry of the store is as before. For a group that the detector
  returns sorted, the key is the pipe-joined sorted group.
\<close>

theorem duplicate_groups_are_recorded:
  assumes on: "duplicates (report cfg)"
      and inj: "inj_on (join ''|'') (set (findDuplicateExportedNames cap sourceFile))"
      and run: "processSourceFile cap cfg unref sourceFile s = Inr s'"
  shows
    "(\<forall>names \<in> set (findDuplicateExportedNames cap sourceFile).
        getIssue (symbolIssues s' Duplicates)
          (relative cap (workingDir cfg) (getFilePath sourceFile)) (join ''|'' names)
        = Some \<lparr>filePath = getFilePath sourceFile, symbol = join ''|'' names,
                symbols = Some names, symbolType = None\<rparr>)
     \<and> (\<forall>names \<in> set (findDuplicateExportedNames cap sourceFile).
          sorted names \<longrightarrow>
          getIssue (symbolIssues s' Duplicates)
            (relative cap (workingDir cfg) (getFilePath sourceFile)) (join ''|'' (sort names))
          = Some \<lparr>filePath = getFilePath sourceFile, symbol = join ''|'' (sort names),
                  symbols = Some names, symbolType = None\<rparr>)
     \<and> symbolCounters s' Duplicates
         = symbolCounters s Duplicates + length (findDuplicateExportedNames cap sourceFile)
     \<and> (\<forall>k n. k \<noteq> relative cap (workingDir cfg) (getFilePath sourceFile)
                \<or> n \<notin> join ''|'' ` set (findDuplicateExportedNames cap sourceFile)
              \<longrightarrow> getIssue (symbolIssues s' Duplicates) k n
                  = getIssue (symbolIssues s Duplicates) k n)"
proof -
  let ?s1 = "s\<lparr>processed := processed s + 1\<rparr>"
  let ?s2 = "if dependencies (report cfg) \<or> unlisted (report cfg)
             then collectUnresolved cap cfg unref sourceFile ?s1 else ?s1"
  let ?s3 = "collectDuplicates cap cfg unref sourceFile ?s2"
  let ?key = "relative cap (workingDir cfg) (getFilePath sourceFile)"
  let ?groups = "findDuplicateExportedNames cap sourceFile"
  have s2: "symbolIssues ?s2 Duplicates = symbolIssues s Duplicates
      \<and> symbolCounters ?s2 Duplicates = symbolCounters s Duplicates"
    by (simp add: collectUnresolved_other)
  have s3: "(symbolIssues s' Duplicates, symbolCounters s' Duplicates)
      = (symbolIssues ?s3 Duplicates, symbolCounters ?s3 Duplicates)"
  proof (cases "exports (report cfg) \<or> types (report cfg) \<or> nsExports (report cfg)
      \<or> nsTypes (report cfg)")
    case True
    with run on have "classifyExports cap cfg unref sourceFile ?s3 = Inr s'"
      by (auto simp: processSourceFile_def Let_def split: if_splits)
    then show ?thesis
      by (rule classifyExports_keeps) simp
  next
    case False
    with run on show ?thesis
      by (auto simp: processSourceFile_def Let_def split: if_splits)
  qed
  have recorded: "getIssue (symbolIssues s' Duplicates) ?key (join ''|'' names)
      = Some \<lparr>filePath = getFilePath sourceFile, symbol = join ''|'' names,
              symbols = Some names, symbolType = None\<rparr>"
    if "names \<in> set ?groups" for names
    using s3 duplicates_fold_recorded [OF that inj, of cap cfg unref "getFilePath sourceFile" ?s2]
    by (simp add: collectDuplicates_def)
  have counter: "symbolCounters s' Duplicates = symbolCounters s Duplicates + length ?groups"
    using s3 s2 duplicates_fold_counter [of cap cfg unref _ ?groups ?s2]
    by (simp add: collectDuplicates_def)
  have others: "getIssue (symbolIssues s' Duplicates) k n = getIssue (symbolIssues s Duplicates) k n"
    if "k \<noteq> ?key \<or> n \<notin> join ''|'' ` set ?groups" for k n
    using s3 s2 duplicates_fold_others [OF that, of unref ?s2]
    by (simp add: collectDuplicates_def)
  have sorted_key: "getIssue (symbolIssues s' Duplicates) ?key (join ''|'' (sort names))
      = Some \<lparr>filePath = getFilePath sourceFile, symbol = join ''|'' (sort names),
              symbols = Some names, symbolType = None\<rparr>"
    if "names \<in> set ?groups" and "sorted names" for names
    using recorded [OF that(1)] that(2) by (simp add: sorted_sort_id)
  show ?thesis
    using recorded sorted_key counter others by blast
qed

theorem duplicate_groups_are_recorded_witness:
  "duplicates (report sampleConfiguration)
   \<and> findDuplicateExportedNames sampleCapabilities fileD = [[''x'', ''y'']]
   \<and> inj_on (join ''|'') (set (findDuplicateExportedNames sampleCapabilities fileD))
   \<and> (\<exists>s'. processSourceFile sampleCapabilities sampleConfiguration [] fileD (initialState [])
                = Inr s'
            \<and> getIssue (symbolIssues s' Duplicates) ''d.ts'' ''x|y''
                = Some \<lparr>filePath = ''/p/d.ts'', symbol = ''x|y'', symbols = Some [''x'', ''y''],
                        symbolType = None\<rparr>
            \<and> symbolCounters s' Duplicates = 1)"
proof -
  have on: "duplicates (report sampleConfiguration)"
    by (simp add: sampleConfiguration_def allReported_def)
  have groups: "findDuplicateExportedNames sampleCapabilities fileD = [[''x'', ''y'']]"
    by (simp add: sampleCapabilities_def fileD_def)
  have inj: "inj_on (join ''|'') (set (findDuplicateExportedNames sampleCapabilities fileD))"
    by (simp add: groups)
  have key: "relative sampleCapabilities (workingDir sampleConfiguration) ''/p/d.ts'' = ''d.ts''"
    by code_simp
  have "\<not> isl (processSourceFile sampleCapabilities sampleConfiguration [] fileD (initialState []))"
    by code_simp
  then obtain s' where run:
    "processSourceFile sampleCapabilities sampleConfiguration [] fileD (initialState []) = Inr s'"
    by (cases "processSourceFile sampleCapabilities sampleConfiguration [] fileD (initialState [])")
      auto
  have zero: "symbolCounters (initialState []) Duplicates = 0"
    by (simp add: initialState_def Let_def)
  have path: "getFilePath fileD = ''/p/d.ts''"
    by (simp add: fileD_def)
  from duplicate_groups_are_recorded [OF on inj run]
  have "getIssue (symbolIssues s' Duplicates) ''d.ts'' ''x|y''
          = Some \<lparr>filePath = ''/p/d.ts'', symbol = ''x|y'', symbols = Some [''x'', ''y''],
                  symbolType = None\<rparr>
        \<and> symbolCounters s' Duplicates = 1"
    unfolding groups path key zero by simp
  with on groups inj run show ?thesis
    by blast
qed

text \<open>
  Claim C7 as stated fails where the detector returns a group that is not sorted. For
  \<^verbatim>\<open>/p/e.ts\<close> it returns \<^verbatim>\<open>y, x\<close>: the one issue recorded has the key \<^verbatim>\<open>y|x\<close>,
  and nothing is recorded under the pipe-joined sorted group \<^verbatim>\<open>x|y\<close>.
\<close>

theorem duplicates_key_sorted_counterexample:
  "findDuplicateExportedNames sampleCapabilities fileE = [[''y'', ''x'']]
   \<and> join ''|'' (sort [''y'', ''x'']) = ''x|y''
   \<and> symbolIssues
        (collectDuplicates sampleCapabilities sampleConfiguration [] fileE (initialState []))
        Duplicates
       = [(''e.ts'', [(''y|x'', \<lparr>filePath = ''/p/e.ts'', symbol = ''y|x'',
                                  symbols = Some [''y'', ''x''], symbolType = None\<rparr>)])]
   \<and> getIssue
        (symbolIssues
           (collectDuplicates sampleCapabilities sampleConfiguration [] fileE (initialState []))
           Duplicates)
        ''e.ts'' (join ''|'' (sort [''y'', ''x''])) = None"
  by code_simp

section \<open>The progress reporter is an observer\<close>

lemma returned_eq_iff:
  "returned s = returned t \<longleftrightarrow>
     projectIssues s = projectIssues t \<and> symbolIssues s = symbolIssues t
     \<and> projectCounters s = projectCounters t \<and> symbolCounters s = symbolCounters t
     \<and> processed s = processed t"
  by (auto simp: returned_def)

lemma fold_returned:
  assumes step: "\<And>x s t. returned s = returned t \<Longrightarrow> returned (f x s) = returned (g x t)"
  shows "returned s = returned t \<Longrightarrow> returned (fold f xs s) = returned (fold g xs t)"
  by (induction xs arbitrary: s t) (simp_all add: step)

lemma forEach_returned:
  assumes step: "\<And>x s t. returned s = returned t \<Longrightarrow>
      map_sum id returned (f x s) = map_sum id returned (g x t)"
  shows "returned s = returned t \<Longrightarrow>
      map_sum id returned (forEach f xs s) = map_sum id returned (forEach g xs t)"
proof (induction xs arbitrary: s t)
  case Nil
  then show ?case by simp
next
  case (Cons x xs)
  from step [OF Cons.prems, of x] show ?case
    by (cases "f x s"; cases "g x t") (simp_all add: Cons.IH [unfolded id_def])
qed

lemma addSymbolIssue_returned:
  "returned s = returned t \<Longrightarrow>
     returned (addSymbolIssue cap (cfg\<lparr>isShowProgress := b\<rparr>) u ty i s)
     = returned (addSymbolIssue cap cfg u ty i t)"
  by (simp add: returned_eq_iff addSymbolIssue_def Let_def)

lemma addProjectIssue_returned:
  "returned s = returned t \<Longrightarrow>
     returned (addProjectIssue cap (cfg\<lparr>isShowProgress := b\<rparr>) u ty i s)
     = returned (addProjectIssue cap cfg u ty i t)"
  by (simp add: returned_eq_iff addProjectIssue_def)

lemma classifyIdentifier_returned:
  assumes "returned s = returned t"
  shows "returned (classifyIdentifier cap (cfg\<lparr>isShowProgress := b\<rparr>) u sf type identifier s)
     = returned (classifyIdentifier cap cfg u sf type identifier t)"
proof -
  from assms have "alreadyRecorded (report cfg) s p n = alreadyRecorded (report cfg) t p n" for p n
    by (simp add: alreadyRecorded_def returned_eq_iff)
  with assms show ?thesis
    by (simp add: classifyIdentifier_def Let_def addSymbolIssue_returned)
qed

lemma processDeclaration_returned:
  "returned s = returned t \<Longrightarrow>
     map_sum id returned (processDeclaration cap (cfg\<lparr>isShowProgress := b\<rparr>) u sf decl s)
     = map_sum id returned (processDeclaration cap cfg u sf decl t)"
  by (simp add: processDeclaration_def Let_def classifyIdentifier_returned
        split: sum.splits option.splits)

lemma classifyExports_returned:
  assumes "returned s = returned t"
  shows "map_sum id returned (classifyExports cap (cfg\<lparr>isShowProgress := b\<rparr>) u sf s)
     = map_sum id returned (classifyExports cap cfg u sf t)"
proof -
  have inner: "returned s1 = returned t1 \<Longrightarrow>
      map_sum id returned (forEach (processDeclaration cap (cfg\<lparr>isShowProgress := b\<rparr>) u sf) ds s1)
      = map_sum id returned (forEach (processDeclaration cap cfg u sf) ds t1)" for ds s1 t1
    by (rule forEach_returned) (rule processDeclaration_returned)
  have "map_sum id returned
          (forEach (\<lambda>ds. forEach (processDeclaration cap (cfg\<lparr>isShowProgress := b\<rparr>) u sf) ds)
             (map snd (getExportedDeclarations sf)) s)
        = map_sum id returned
          (forEach (\<lambda>ds. forEach (processDeclaration cap cfg u sf) ds)
             (map snd (getExportedDeclarations sf)) t)"
    using assms by (rule forEach_returned [rotated]) (rule inner)
  with assms show ?thesis
    by (simp add: classifyExports_def Let_def)
qed

lemma collectUnresolved_returned:
  "returned s = returned t \<Longrightarrow>
     returned (collectUnresolved cap (cfg\<lparr>isShowProgress := b\<rparr>) u sf s)
     = returned (collectUnresolved cap cfg u sf t)"
  unfolding collectUnresolved_def
  by (rule fold_returned) (rule addSymbolIssue_returned)

lemma collectDuplicates_returned:
  "returned s = returned t \<Longrightarrow>
     returned (collectDuplicates cap (cfg\<lparr>isShowProgress := b\<rparr>) u sf s)
     = returned (collectDuplicates cap cfg u sf t)"
  unfolding collectDuplicates_def
  by (rule fold_returned) (rule addSymbolIssue_returned)

lemma bump_returned:
  "returned s = returned t \<Longrightarrow>
     returned (s\<lparr>processed := processed s + 1\<rparr>) = returned (t\<lparr>processed := processed t + 1\<rparr>)"
  by (simp add: returned_eq_iff)

lemma processSourceFile_returned:
  assumes "returned s = returned t"
  shows "map_sum id returned (processSourceFile cap (cfg\<lparr>isShowProgress := b\<rparr>) u sf s)
     = map_sum id returned (processSourceFile cap cfg u sf t)"
proof -
  let ?c = "cfg\<lparr>isShowProgress := b\<rparr>"
  let ?s1 = "s\<lparr>processed := processed s + 1\<rparr>" and ?t1 = "t\<lparr>processed := processed t + 1\<rparr>"
  let ?s2 = "if dependencies (report cfg) \<or> unlisted (report cfg)
             then collectUnresolved cap ?c u sf ?s1 else ?s1"
  let ?t2 = "if dependencies (report cfg) \<or> unlisted (report cfg)
             then collectUnresolved cap cfg u sf ?t1 else ?t1"
  let ?s3 = "if duplicates (report cfg) then collectDuplicates cap ?c u sf ?s2 else ?s2"
  let ?t3 = "if duplicates (report cfg) then collectDuplicates cap cfg u sf ?t2 else ?t2"
  have 1: "returned ?s1 = returned ?t1"
    using assms by (rule bump_returned)
  have 2: "returned ?s2 = returned ?t2"
    using collectUnresolved_returned [OF 1] 1 by simp
  have 3: "returned ?s3 = returned ?t3"
    using collectDuplicates_returned [OF 2] 2 by simp
  have "map_sum id returned (classifyExports cap ?c u sf ?s3)
      = map_sum id returned (classifyExports cap cfg u sf ?t3)"
    using 3 by (rule classifyExports_returned)
  moreover have "processSourceFile cap ?c u sf s
      = (if exports (report cfg) \<or> types (report cfg) \<or> nsExports (report cfg)
            \<or> nsTypes (report cfg)
         then classifyExports cap ?c u sf ?s3 else Inr ?s3)"
    by (simp add: processSourceFile_def Let_def)
  moreover have "processSourceFile cap cfg u sf t
      = (if exports (report cfg) \<or> types (report cfg) \<or> nsExports (report cfg)
            \<or> nsTypes (report cfg)
         then classifyExports cap cfg u sf ?t3 else Inr ?t3)"
    by (simp add: processSourceFile_def Let_def)
  ultimately show ?thesis
    using 3 by simp
qed

lemma entryPass_returned:
  assumes "returned s = returned t"
  shows "returned (entryPass cap (cfg\<lparr>isShowProgress := b\<rparr>) u fs s)
     = returned (entryPass cap cfg u fs t)"
proof -
  have step: "returned s1 = returned t1 \<Longrightarrow>
      returned (processEntryFile cap (cfg\<lparr>isShowProgress := b\<rparr>) u x s1)
      = returned (processEntryFile cap cfg u x t1)" for x s1 t1
    unfolding processEntryFile_def
    by (rule collectUnresolved_returned) (rule bump_returned)
  have "returned (fold (processEntryFile cap (cfg\<lparr>isShowProgress := b\<rparr>) u) fs s)
      = returned (fold (processEntryFile cap cfg u) fs t)"
    using assms by (rule fold_returned [rotated]) (rule step)
  with assms show ?thesis
    by (simp add: entryPass_def)
qed

lemma mainTraversal_returned:
  assumes "returned s = returned t"
  shows "map_sum id returned (mainTraversal cap (cfg\<lparr>isShowProgress := b\<rparr>) u fs s)
     = map_sum id returned (mainTraversal cap cfg u fs t)"
proof -
  have "map_sum id returned (forEach (processSourceFile cap (cfg\<lparr>isShowProgress := b\<rparr>) u) fs s)
      = map_sum id returned (forEach (processSourceFile cap cfg u) fs t)"
    using assms by (rule forEach_returned [rotated]) (rule processSourceFile_returned)
  with assms show ?thesis
    by (simp add: mainTraversal_def Let_def)
qed

lemma projectPass_returned:
  assumes "returned s = returned t"
  shows "returned (projectPass cap (cfg\<lparr>isShowProgress := b\<rparr>) u s)
     = returned (projectPass cap cfg u t)"
proof -
  have deps: "returned s1 = returned t1 \<Longrightarrow>
      returned (fold (\<lambda>name. addProjectIssue cap (cfg\<lparr>isShowProgress := b\<rparr>) u ty (item name)) xs s1)
      = returned (fold (\<lambda>name. addProjectIssue cap cfg u ty (item name)) xs t1)"
    for ty item xs s1 t1
    by (rule fold_returned) (rule addProjectIssue_returned)
  show ?thesis
    using assms by (simp add: projectPass_def Let_def deps)
qed

lemma resetLines_returned:
  "returned s = returned t \<Longrightarrow> returned (resetLines cfg1 s) = returned (resetLines cfg2 t)"
  by (simp add: returned_eq_iff)

lemma collectIssues_returned:
  "map_sum id returned (collectIssues cap (cfg\<lparr>isShowProgress := b\<rparr>) u es ns)
   = map_sum id returned (collectIssues cap cfg u es ns)"
proof -
  have "map_sum id returned
          (mainTraversal cap (cfg\<lparr>isShowProgress := b\<rparr>) u ns
             (entryPass cap (cfg\<lparr>isShowProgress := b\<rparr>) u es (initialState u)))
        = map_sum id returned
          (mainTraversal cap cfg u ns (entryPass cap cfg u es (initialState u)))"
    by (rule mainTraversal_returned) (rule entryPass_returned, simp)
  then show ?thesis
    unfolding collectIssues_def
    by (auto split: sum.splits intro!: resetLines_returned projectPass_returned)
qed

lemma updateProcessingOutput_off:
  "\<not> isShowProgress cfg \<Longrightarrow> updateProcessingOutput cap cfg u i s = s"
  by (simp add: updateProcessingOutput_def)

lemma addSymbolIssue_quiet:
  "\<not> isShowProgress cfg \<Longrightarrow> lineRewriter (addSymbolIssue cap cfg u ty i s) = lineRewriter s"
  by (simp add: addSymbolIssue_def Let_def updateProcessingOutput_off)

lemma addProjectIssue_quiet:
  "\<not> isShowProgress cfg \<Longrightarrow> lineRewriter (addProjectIssue cap cfg u ty i s) = lineRewriter s"
  by (simp add: addProjectIssue_def updateProcessingOutput_off)

lemma processDeclaration_quiet:
  "\<not> isShowProgress cfg \<Longrightarrow> processDeclaration cap cfg u sf decl s = Inr s' \<Longrightarrow>
     lineRewriter s' = lineRewriter s"
  by (auto simp: processDeclaration_def classifyIdentifier_def Let_def addSymbolIssue_quiet
        split: if_splits sum.splits option.splits)

lemma classifyExports_quiet:
  assumes off: "\<not> isShowProgress cfg" and run: "classifyExports cap cfg u sf s = Inr s'"
  shows "lineRewriter s' = lineRewriter s"
proof (cases "length (newSet (concat (map snd (getExportedDeclarations sf)))) = 1")
  case True
  with run show ?thesis
    by (simp add: classifyExports_def Let_def)
next
  case False
  with run have loop: "forEach (\<lambda>ds. forEach (processDeclaration cap cfg u sf) ds)
      (map snd (getExportedDeclarations sf)) s = Inr s'"
    by (simp add: classifyExports_def Let_def)
  have inner: "forEach (processDeclaration cap cfg u sf) ds s1 = Inr s2 \<Longrightarrow>
      lineRewriter s2 = lineRewriter s1" for ds s1 s2
    by (rule forEach_same [where f = "processDeclaration cap cfg u sf"])
      (rule processDeclaration_quiet [OF off])
  show ?thesis
    by (rule forEach_same [OF _ loop]) (rule inner)
qed

lemma collectUnresolved_quiet:
  "\<not> isShowProgress cfg \<Longrightarrow> lineRewriter (collectUnresolved cap cfg u sf s) = lineRewriter s"
  unfolding collectUnresolved_def
  by (rule fold_same) (rule addSymbolIssue_quiet)

lemma collectDuplicates_quiet:
  "\<not> isShowProgress cfg \<Longrightarrow> lineRewriter (collectDuplicates cap cfg u sf s) = lineRewriter s"
  unfolding collectDuplicates_def
  by (rule fold_same) (rule addSymbolIssue_quiet)

lemma processSourceFile_quiet:
  assumes off: "\<not> isShowProgress cfg" and run: "processSourceFile cap cfg u sf s = Inr s'"
  shows "lineRewriter s' = lineRewriter s"
  using run
  by (auto simp: processSourceFile_def Let_def collectUnresolved_quiet [OF off]
        collectDuplicates_quiet [OF off]
        split: if_splits dest!: classifyExports_quiet [OF off])

lemma entryPass_quiet:
  assumes off: "\<not> isShowProgress cfg"
  shows "lineRewriter (entryPass cap cfg u fs s) = lineRewriter s"
proof -
  have "lineRewriter (fold (processEntryFile cap cfg u) fs s) = lineRewriter s"
    by (rule fold_same) (simp add: processEntryFile_def collectUnresolved_quiet [OF off])
  then show ?thesis
    by (simp add: entryPass_def)
qed

lemma mainTraversal_quiet:
  assumes off: "\<not> isShowProgress cfg" and run: "mainTraversal cap cfg u fs s = Inr s'"
  shows "lineRewriter s' = lineRewriter s"
proof (cases "mainTraversal cap cfg u fs s = forEach (processSourceFile cap cfg u) fs s")
  case True
  with run have loop: "forEach (processSourceFile cap cfg u) fs s = Inr s'"
    by simp
  show ?thesis
    by (rule forEach_same [OF _ loop]) (rule processSourceFile_quiet [OF off])
next
  case False
  then have "mainTraversal cap cfg u fs s = Inr s"
    by (simp add: mainTraversal_def Let_def split: if_splits)
  with run show ?thesis
    by simp
qed

lemma projectPass_quiet:
  assumes off: "\<not> isShowProgress cfg"
  shows "lineRewriter (projectPass cap cfg u s) = lineRewriter s"
proof -
  have deps: "lineRewriter (fold (\<lambda>name. addProjectIssue cap cfg u ty (item name)) xs s0)
      = lineRewriter s0" for ty item xs s0
    by (rule fold_same) (rule addProjectIssue_quiet [OF off])
  show ?thesis
    by (simp add: projectPass_def Let_def deps)
qed

lemma collectIssues_quiet:
  assumes off: "\<not> isShowProgress cfg" and run: "collectIssues cap cfg u es ns = Inr r"
  shows "lineRewriter r = []"
proof -
  from run obtain s where
    trav: "mainTraversal cap cfg u ns (entryPass cap cfg u es (initialState u)) = Inr s"
    and r: "r = resetLines cfg (projectPass cap cfg u s)"
    by (auto simp: collectIssues_def split: sum.splits)
  from mainTraversal_quiet [OF off trav] have "lineRewriter s = []"
    by (simp add: entryPass_quiet [OF off] initialState_def Let_def)
  with off show ?thesis
    by (simp add: r resetLines_def projectPass_quiet)
qed

text \<open>
  Claim C9. For any capabilities and any configuration, the run with progress display
  on and the run with it off end alike: both throw the same exception, or both return,
  and then with the same issues and the same counters. With the display off
  \<^verbatim>\<open>updateProcessingOutput\<close> and the final reset change nothing, and the line
  rewriter receives no call during the run.
\<close>

theorem progress_display_is_an_observer:
  "map_sum id returned (findIssues cap (cfg\<lparr>isShowProgress := True\<rparr>))
     = map_sum id returned (findIssues cap (cfg\<lparr>isShowProgress := False\<rparr>))
   \<and> updateProcessingOutput cap (cfg\<lparr>isShowProgress := False\<rparr>) unref item s = s
   \<and> resetLines (cfg\<lparr>isShowProgress := False\<rparr>) s = s
   \<and> (\<forall>r. findIssues cap (cfg\<lparr>isShowProgress := False\<rparr>) = Inr r \<longrightarrow> lineRewriter r = [])"
proof -
  have files: "unreferencedProductionFiles (cfg\<lparr>isShowProgress := b\<rparr>)
        = unreferencedProductionFiles cfg
      \<and> usedEntryFiles (cfg\<lparr>isShowProgress := b\<rparr>) = usedEntryFiles cfg
      \<and> usedNonEntryFiles (cfg\<lparr>isShowProgress := b\<rparr>) = usedNonEntryFiles cfg" for b
    by (simp add: unreferencedProductionFiles_def usedEntryFiles_def usedNonEntryFiles_def
        usedProductionFiles_def)
  have "map_sum id returned (findIssues cap (cfg\<lparr>isShowProgress := b\<rparr>))
      = map_sum id returned (findIssues cap cfg)" for b
    by (simp only: findIssues_def files collectIssues_returned)
  then have same: "map_sum id returned (findIssues cap (cfg\<lparr>isShowProgress := True\<rparr>))
      = map_sum id returned (findIssues cap (cfg\<lparr>isShowProgress := False\<rparr>))"
    by simp
  have quiet: "findIssues cap (cfg\<lparr>isShowProgress := False\<rparr>) = Inr r \<Longrightarrow> lineRewriter r = []"
    for r
    unfolding findIssues_def by (rule collectIssues_quiet [rotated], assumption) simp
  show ?thesis
    using same quiet by (simp add: updateProcessingOutput_off resetLines_def)
qed

theorem progress_display_is_an_observer_witness:
  "(\<exists>r. findIssues sampleCapabilities (sampleConfiguration\<lparr>isShowProgress := False\<rparr>) = Inr r
        \<and> lineRewriter r = []
        \<and> map_sum id returned
             (findIssues sampleCapabilities (sampleConfiguration\<lparr>isShowProgress := True\<rparr>))
           = Inr (returned r))
   \<and> map_sum id lineRewriter
        (findIssues sampleCapabilities (sampleConfiguration\<lparr>isShowProgress := True\<rparr>))
       \<noteq> Inr []"
proof -
  have "\<not> isl (findIssues sampleCapabilities (sampleConfiguration\<lparr>isShowProgress := False\<rparr>))"
    by code_simp
  then obtain r where r:
    "findIssues sampleCapabilities (sampleConfiguration\<lparr>isShowProgress := False\<rparr>) = Inr r"
    by (cases "findIssues sampleCapabilities (sampleConfiguration\<lparr>isShowProgress := False\<rparr>)")
      auto
  have loud: "map_sum id lineRewriter
      (findIssues sampleCapabilities (sampleConfiguration\<lparr>isShowProgress := True\<rparr>)) \<noteq> Inr []"
    by code_simp
  from progress_display_is_an_observer [of sampleCapabilities sampleConfiguration] r
  have "lineRewriter r = []
      \<and> map_sum id returned
           (findIssues sampleCapabilities (sampleConfiguration\<lparr>isShowProgress := True\<rparr>))
         = Inr (returned r)"
    by simp
  with r loud show ?thesis
    by blast
qed

section \<open>The two phases of the unresolved-dependency collection\<close>

lemma addSymbolIssue_depends_on_own_category:
  assumes "symbolIssues s ty = symbolIssues t ty" and "symbolCounters s ty = symbolCounters t ty"
  shows "symbolIssues (addSymbolIssue cap cfg u ty i s) ty
          = symbolIssues (addSymbolIssue cap cfg u ty i t) ty
       \<and> symbolCounters (addSymbolIssue cap cfg u ty i s) ty
          = symbolCounters (addSymbolIssue cap cfg u ty i t) ty"
  using assms by (simp add: addSymbolIssue_store)

lemma fold_unresolved_agree:
  assumes "symbolIssues s Unresolved = symbolIssues t Unresolved"
      and "symbolCounters s Unresolved = symbolCounters t Unresolved"
  shows "symbolIssues (fold (addSymbolIssue cap cfg u Unresolved) xs s) Unresolved
          = symbolIssues (fold (addSymbolIssue cap cfg u Unresolved) xs t) Unresolved
       \<and> symbolCounters (fold (addSymbolIssue cap cfg u Unresolved) xs s) Unresolved
          = symbolCounters (fold (addSymbolIssue cap cfg u Unresolved) xs t) Unresolved"
  using assms
proof (induction xs arbitrary: s t)
  case Nil
  then show ?case by simp
next
  case (Cons x xs)
  from addSymbolIssue_depends_on_own_category [OF Cons.prems, of cap cfg u x]
  show ?case
    using Cons.IH [of "addSymbolIssue cap cfg u Unresolved x s"
        "addSymbolIssue cap cfg u Unresolved x t"]
    by simp
qed

lemma processEntryFile_unresolved:
  assumes "symbolIssues s Unresolved = symbolIssues t Unresolved"
      and "symbolCounters s Unresolved = symbolCounters t Unresolved"
  shows "symbolIssues (processEntryFile cap cfg u sf s) Unresolved
          = symbolIssues (fold (addSymbolIssue cap cfg u Unresolved)
                            (getUnresolvedDependencies cap sf) t) Unresolved
       \<and> symbolCounters (processEntryFile cap cfg u sf s) Unresolved
          = symbolCounters (fold (addSymbolIssue cap cfg u Unresolved)
                              (getUnresolvedDependencies cap sf) t) Unresolved"
  unfolding processEntryFile_def collectUnresolved_def
  by (rule fold_unresolved_agree) (simp_all add: assms)

lemma processSourceFile_unresolved:
  assumes run: "processSourceFile cap cfg u sf s = Inr s'"
      and s: "symbolIssues s Unresolved = symbolIssues t Unresolved"
             "symbolCounters s Unresolved = symbolCounters t Unresolved"
  shows "symbolIssues s' Unresolved
          = symbolIssues (if dependencies (report cfg) \<or> unlisted (report cfg)
                          then fold (addSymbolIssue cap cfg u Unresolved)
                                 (getUnresolvedDependencies cap sf) t
                          else t) Unresolved
       \<and> symbolCounters s' Unresolved
          = symbolCounters (if dependencies (report cfg) \<or> unlisted (report cfg)
                            then fold (addSymbolIssue cap cfg u Unresolved)
                                   (getUnresolvedDependencies cap sf) t
                            else t) Unresolved"
proof -
  let ?s1 = "s\<lparr>processed := processed s + 1\<rparr>"
  let ?s2 = "if dependencies (report cfg) \<or> unlisted (report cfg)
             then collectUnresolved cap cfg u sf ?s1 else ?s1"
  let ?s3 = "if duplicates (report cfg) then collectDuplicates cap cfg u sf ?s2 else ?s2"
  let ?t2 = "if dependencies (report cfg) \<or> unlisted (report cfg)
             then fold (addSymbolIssue cap cfg u Unresolved) (getUnresolvedDependencies cap sf) t
             else t"
  have s2: "symbolIssues ?s2 Unresolved = symbolIssues ?t2 Unresolved
      \<and> symbolCounters ?s2 Unresolved = symbolCounters ?t2 Unresolved"
    using fold_unresolved_agree [of ?s1 t cap cfg u "getUnresolvedDependencies cap sf"] s
    by (simp add: collectUnresolved_def)
  have s3: "symbolIssues ?s3 Unresolved = symbolIssues ?s2 Unresolved
      \<and> symbolCounters ?s3 Unresolved = symbolCounters ?s2 Unresolved"
    by (simp add: collectDuplicates_other)
  have "(symbolIssues s' Unresolved, symbolCounters s' Unresolved)
      = (symbolIssues ?s3 Unresolved, symbolCounters ?s3 Unresolved)"
  proof (cases "exports (report cfg) \<or> types (report cfg) \<or> nsExports (report cfg)
      \<or> nsTypes (report cfg)")
    case True
    with run have "classifyExports cap cfg u sf ?s3 = Inr s'"
      by (auto simp: processSourceFile_def Let_def split: if_splits)
    then show ?thesis
      by (rule classifyExports_keeps) simp
  next
    case False
    with run show ?thesis
      by (auto simp: processSourceFile_def Let_def split: if_splits)
  qed
  with s3 s2 show ?thesis
    by simp
qed

lemma entryPass_unresolved:
  assumes "symbolIssues s Unresolved = symbolIssues t Unresolved"
      and "symbolCounters s Unresolved = symbolCounters t Unresolved"
  shows "symbolIssues (entryPass cap cfg u fs s) Unresolved
          = symbolIssues (unresolvedSinglePass cap cfg u fs t) Unresolved
       \<and> symbolCounters (entryPass cap cfg u fs s) Unresolved
          = symbolCounters (unresolvedSinglePass cap cfg u fs t) Unresolved"
proof -
  have "symbolIssues (fold (processEntryFile cap cfg u) fs s) Unresolved
          = symbolIssues (fold (\<lambda>sf. fold (addSymbolIssue cap cfg u Unresolved)
                                        (getUnresolvedDependencies cap sf)) fs t) Unresolved
       \<and> symbolCounters (fold (processEntryFile cap cfg u) fs s) Unresolved
          = symbolCounters (fold (\<lambda>sf. fold (addSymbolIssue cap cfg u Unresolved)
                                          (getUnresolvedDependencies cap sf)) fs t) Unresolved"
    using assms
  proof (induction fs arbitrary: s t)
    case Nil
    then show ?case by simp
  next
    case (Cons f fs)
    from processEntryFile_unresolved [OF Cons.prems, of cap cfg u f]
    show ?case
      using Cons.IH [of "processEntryFile cap cfg u f s"
          "fold (addSymbolIssue cap cfg u Unresolved) (getUnresolvedDependencies cap f) t"]
      by simp
  qed
  with assms show ?thesis
    by (simp add: entryPass_def unresolvedSinglePass_def)
qed

lemma forEach_processSourceFile_unresolved:
  assumes "forEach (processSourceFile cap cfg u) fs s = Inr s'"
      and "symbolIssues s Unresolved = symbolIssues t Unresolved"
      and "symbolCounters s Unresolved = symbolCounters t Unresolved"
  shows "symbolIssues s' Unresolved
          = symbolIssues (unresolvedSinglePass cap cfg u fs t) Unresolved
       \<and> symbolCounters s' Unresolved
          = symbolCounters (unresolvedSinglePass cap cfg u fs t) Unresolved"
  using assms
proof (induction fs arbitrary: s t)
  case Nil
  then show ?case by (simp add: unresolvedSinglePass_def)
next
  case (Cons f fs)
  from Cons.prems(1) obtain s1 where s1: "processSourceFile cap cfg u f s = Inr s1"
    and rest: "forEach (processSourceFile cap cfg u) fs s1 = Inr s'"
    by (auto split: sum.splits)
  let ?t1 = "if dependencies (report cfg) \<or> unlisted (report cfg)
             then fold (addSymbolIssue cap cfg u Unresolved) (getUnresolvedDependencies cap f) t
             else t"
  from processSourceFile_unresolved [OF s1 Cons.prems(2,3)]
  have "symbolIssues s1 Unresolved = symbolIssues ?t1 Unresolved"
    and "symbolCounters s1 Unresolved = symbolCounters ?t1 Unresolved"
    by simp_all
  from Cons.IH [OF rest this]
  show ?case
    by (simp add: unresolvedSinglePass_def)
qed

lemma mainTraversal_unresolved:
  assumes run: "mainTraversal cap cfg u fs s = Inr s'"
      and s: "symbolIssues s Unresolved = symbolIssues t Unresolved"
             "symbolCounters s Unresolved = symbolCounters t Unresolved"
  shows "symbolIssues s' Unresolved
          = symbolIssues (unresolvedSinglePass cap cfg u fs t) Unresolved
       \<and> symbolCounters s' Unresolved
          = symbolCounters (unresolvedSinglePass cap cfg u fs t) Unresolved"
proof (cases "dependencies (report cfg) \<or> unlisted (report cfg)")
  case True
  with run have "forEach (processSourceFile cap cfg u) fs s = Inr s'"
    by (auto simp: mainTraversal_def Let_def)
  then show ?thesis
    using s by (rule forEach_processSourceFile_unresolved)
next
  case False
  show ?thesis
  proof (cases "mainTraversal cap cfg u fs s = forEach (processSourceFile cap cfg u) fs s")
    case True
    with run have "forEach (processSourceFile cap cfg u) fs s = Inr s'"
      by simp
    then show ?thesis
      using s by (rule forEach_processSourceFile_unresolved)
  next
    case other: False
    then have "mainTraversal cap cfg u fs s = Inr s"
      by (simp add: mainTraversal_def Let_def split: if_splits)
    with run s False show ?thesis
      by (simp add: unresolvedSinglePass_def)
  qed
qed

lemma projectPass_symbolIssues [simp]:
  "symbolIssues (projectPass cap cfg u s) = symbolIssues s"
  "symbolCounters (projectPass cap cfg u s) = symbolCounters s"
proof -
  have a: "symbolIssues (fold (\<lambda>name. addProjectIssue cap cfg u ty (item name)) xs s0)
      = symbolIssues s0" for ty item xs s0
    by (rule fold_same) simp
  have b: "symbolCounters (fold (\<lambda>name. addProjectIssue cap cfg u ty (item name)) xs s0)
      = symbolCounters s0" for ty item xs s0
    by (rule fold_same) simp
  show "symbolIssues (projectPass cap cfg u s) = symbolIssues s"
    by (simp add: projectPass_def Let_def a)
  show "symbolCounters (projectPass cap cfg u s) = symbolCounters s"
    by (simp add: projectPass_def Let_def b)
qed

lemma unresolvedSinglePass_append:
  "unresolvedSinglePass cap cfg u (es @ ns) s
   = unresolvedSinglePass cap cfg u ns (unresolvedSinglePass cap cfg u es s)"
  by (simp add: unresolvedSinglePass_def)

text \<open>
  Claim C8. Whatever the lists of used entry files and used non-entry files are, when
  the run returns, its \<^verbatim>\<open>unresolved\<close> store and counter are those of the single pass
  of the spec over the entry files followed by the non-entry files, started from the
  empty results: the first phase (lines 167 to 175) and the collection inside the main
  traversal (lines 192 to 195) are guarded by the same two report flags, and nothing
  else in the run writes to \<^verbatim>\<open>unresolved\<close>. The second conjunct is the same fact
  for \<^verbatim>\<open>findIssues\<close> and the two lists it computes.
\<close>

theorem two_phase_unresolved_is_single_pass:
  "(\<forall>r. collectIssues cap cfg unref usedEntry usedNonEntry = Inr r \<longrightarrow>
        symbolIssues r Unresolved
          = symbolIssues (unresolvedSinglePass cap cfg unref (usedEntry @ usedNonEntry)
                            (initialState unref)) Unresolved
        \<and> symbolCounters r Unresolved
          = symbolCounters (unresolvedSinglePass cap cfg unref (usedEntry @ usedNonEntry)
                              (initialState unref)) Unresolved)
   \<and> (\<forall>r. findIssues cap cfg = Inr r \<longrightarrow>
        symbolIssues r Unresolved
          = symbolIssues (unresolvedSinglePass cap cfg (unreferencedProductionFiles cfg)
                            (usedEntryFiles cfg @ usedNonEntryFiles cfg)
                            (initialState (unreferencedProductionFiles cfg))) Unresolved
        \<and> symbolCounters r Unresolved
          = symbolCounters (unresolvedSinglePass cap cfg (unreferencedProductionFiles cfg)
                              (usedEntryFiles cfg @ usedNonEntryFiles cfg)
                              (initialState (unreferencedProductionFiles cfg))) Unresolved)"
proof -
  have main: "symbolIssues r Unresolved
          = symbolIssues (unresolvedSinglePass cap cfg u (es @ ns) (initialState u)) Unresolved
        \<and> symbolCounters r Unresolved
          = symbolCounters (unresolvedSinglePass cap cfg u (es @ ns) (initialState u)) Unresolved"
    if run: "collectIssues cap cfg u es ns = Inr r" for u es ns r
  proof -
    from run obtain s where
      trav: "mainTraversal cap cfg u ns (entryPass cap cfg u es (initialState u)) = Inr s"
      and r: "r = resetLines cfg (projectPass cap cfg u s)"
      by (auto simp: collectIssues_def split: sum.splits)
    from entryPass_unresolved [of "initialState u" "initialState u" cap cfg u es]
    have e: "symbolIssues (entryPass cap cfg u es (initialState u)) Unresolved
        = symbolIssues (unresolvedSinglePass cap cfg u es (initialState u)) Unresolved"
      "symbolCounters (entryPass cap cfg u es (initialState u)) Unresolved
        = symbolCounters (unresolvedSinglePass cap cfg u es (initialState u)) Unresolved"
      by simp_all
    from mainTraversal_unresolved [OF trav e] show ?thesis
      by (simp add: r unresolvedSinglePass_append)
  qed
  show ?thesis
    using main by (simp add: findIssues_def)
qed

theorem two_phase_unresolved_is_single_pass_witness:
  "\<exists>r. collectIssues sampleCapabilities sampleConfiguration [fileC] [fileIndex] [fileA, fileB]
          = Inr r
      \<and> symbolIssues r Unresolved
          = [(''index.ts'', [(''lodash'', unlistedIn ''/p/index.ts'' ''lodash'')]),
             (''a.ts'', [(''chalk'', unlistedIn ''/p/a.ts'' ''chalk'')])]
      \<and> symbolCounters r Unresolved = 2"
proof -
  have "\<not> isl (collectIssues sampleCapabilities sampleConfiguration [fileC] [fileIndex]
      [fileA, fileB])"
    by code_simp
  then obtain r where r:
    "collectIssues sampleCapabilities sampleConfiguration [fileC] [fileIndex] [fileA, fileB] = Inr r"
    by (cases "collectIssues sampleCapabilities sampleConfiguration [fileC] [fileIndex]
        [fileA, fileB]") auto
  have single: "symbolIssues
        (unresolvedSinglePass sampleCapabilities sampleConfiguration [fileC]
           ([fileIndex] @ [fileA, fileB]) (initialState [fileC])) Unresolved
      = [(''index.ts'', [(''lodash'', unlistedIn ''/p/index.ts'' ''lodash'')]),
         (''a.ts'', [(''chalk'', unlistedIn ''/p/a.ts'' ''chalk'')])]"
    by code_simp
  have count: "symbolCounters
        (unresolvedSinglePass sampleCapabilities sampleConfiguration [fileC]
           ([fileIndex] @ [fileA, fileB]) (initialState [fileC])) Unresolved = 2"
    by code_simp
  from two_phase_unresolved_is_single_pass [of sampleCapabilities sampleConfiguration "[fileC]"
      "[fileIndex]" "[fileA, fileB]"] r
  have "symbolIssues r Unresolved
          = symbolIssues (unresolvedSinglePass sampleCapabilities sampleConfiguration [fileC]
              ([fileIndex] @ [fileA, fileB]) (initialState [fileC])) Unresolved
      \<and> symbolCounters r Unresolved
          = symbolCounters (unresolvedSinglePass sampleCapabilities sampleConfiguration [fileC]
              ([fileIndex] @ [fileA, fileB]) (initialState [fileC])) Unresolved"
    by blast
  with r single count show ?thesis
    by auto
qed

section \<open>Where the code departs from the counter law and the short-circuit\<close>

lemma addProjectIssue_counter_law:
  assumes "projectCounters s t = length (projectIssues s t)" and "distinct (projectIssues s t)"
  shows "projectCounters (addProjectIssue cap cfg u ty i s) t
           = length (projectIssues (addProjectIssue cap cfg u ty i s) t)
         \<and> distinct (projectIssues (addProjectIssue cap cfg u ty i s) t)"
  using assms by (auto simp: addProjectIssue_def setAdd_def)

text \<open>
  Claim C1 does not hold of the code. \<^verbatim>\<open>addSymbolIssue\<close> increments the counter on
  every call (line 155), while \<^verbatim>\<open>addProjectIssue\<close> guards its increment (lines 160
  to 163). Recording the same (file, symbol) twice leaves one entry in the store and a
  counter of two; and a run over \<^verbatim>\<open>/p/a.ts\<close>, whose declaration \<^verbatim>\<open>x\<close> is exported
  under two names and is used nowhere, ends with \<^verbatim>\<open>counters.exports\<close> at 2 and a
  single entry in \<^verbatim>\<open>issues.exports\<close>.
\<close>

theorem symbol_counter_exceeds_store:
  "symbolCounters
     (addSymbolIssue sampleCapabilities sampleConfiguration [] Exports issueX afterFirstX) Exports
     = 2
   \<and> storeSize
       (symbolIssues
          (addSymbolIssue sampleCapabilities sampleConfiguration [] Exports issueX afterFirstX)
          Exports) = 1
   \<and> map_sum id (\<lambda>r. (symbolCounters r Exports, storeSize (symbolIssues r Exports),
                      symbolIssues r Exports))
       (collectIssues sampleCapabilities sampleConfiguration [] [] [fileA])
     = Inr (2, 1, [(''a.ts'', [(''x'', issueX)])])"
  by code_simp

text \<open>
  Claim C5 does not hold of the code. \<^verbatim>\<open>addSymbolIssue\<close> stores an issue under
  \<^verbatim>\<open>path.relative(workingDir, filePath)\<close> (line 152), while lines 246 to 249 look
  the identifier up under \<^verbatim>\<open>filePath\<close> itself. Once \<^verbatim>\<open>x\<close> of \<^verbatim>\<open>/p/a.ts\<close> is
  recorded (under \<^verbatim>\<open>a.ts\<close>), the test of lines 246 to 249 still fails for it, and
  the callback run again on the same declaration queries the references and records the
  issue a second time: the counter goes from 1 to 2.
\<close>

theorem recorded_pair_is_processed_again:
  "hasIssue (symbolIssues afterFirstX Exports) ''a.ts'' ''x''
   \<and> symbolCounters afterFirstX Exports = 1
   \<and> exports (report sampleConfiguration)
   \<and> \<not> alreadyRecorded (report sampleConfiguration) afterFirstX (getFilePath fileA) ''x''
   \<and> map_sum id (\<lambda>r. (symbolCounters r Exports, symbolIssues r Exports))
       (processDeclaration sampleCapabilities sampleConfiguration [] fileA declX afterFirstX)
     = Inr (2, [(''a.ts'', [(''x'', issueX)])])"
  by code_simp

end
